theory Spec2Isabelle
  imports Complex_Main
begin

section \<open>Movement and collision core of the first-person demo (src/main.cpp)\<close>

text \<open>
  The per-frame player update of \<^verbatim>\<open>src/main.cpp\<close> is embedded function by function.
  The in-place mutation of \<^verbatim>\<open>Player*\<close> is explicit state passing: an update takes the
  player record and returns the new one. What the source reads from raylib during a
  frame (\<^verbatim>\<open>GetFrameTime\<close>, \<^verbatim>\<open>GetMouseDelta\<close>, \<^verbatim>\<open>IsKeyDown\<close>, \<^verbatim>\<open>IsKeyPressed\<close>)
  is collected in one record of frame inputs.

  A C++ \<^verbatim>\<open>float\<close> is a \<^typ>\<open>real\<close>, and the update is embedded twice. In the first
  embedding arithmetic is exact; every comparison, branch and assignment of the source
  is kept as written, and this is the model of the properties that are about the
  tests and the assignments themselves. In the second embedding, the functions whose
  names end in 32, every arithmetic operation and every decimal literal of the source
  is rounded to binary32; this is the model of the approach to the centre cube, where
  the rounding of the push-out decides whether an inequality on the position holds.
  The special values of IEEE arithmetic (NaN, infinities) are outside both models.
\<close>

subsection \<open>Data\<close>

text \<open>raylib's \<^verbatim>\<open>Vector3\<close> and \<^verbatim>\<open>BoundingBox\<close> (fields x, y, z and min, max).\<close>

record Vector3 =
  vec_x :: real
  vec_y :: real
  vec_z :: real

record BoundingBox =
  bb_min :: Vector3
  bb_max :: Vector3

text \<open>\<^verbatim>\<open>struct CollisionBox\<close>; the two colour fields play no part in the update.\<close>

record CollisionBox =
  box_position :: Vector3
  box_size :: Vector3

text \<open>\<^verbatim>\<open>struct Player\<close>.\<close>

record Player =
  position :: Vector3
  velocity :: Vector3
  yaw :: real
  pitch :: real
  height :: real
  radius :: real
  isGrounded :: bool
  noclipMode :: bool

text \<open>
  The values sampled from raylib in one frame: the frame time, the pointer delta, the
  held state of the movement keys and the edge-triggered press of the space key.
\<close>

record FrameInput =
  frameTime :: real
  mouseDelta_x :: real
  mouseDelta_y :: real
  keyW :: bool
  keyS :: bool
  keyA :: bool
  keyD :: bool
  keySpace :: bool
  keyLeftShift :: bool
  keyLeftControl :: bool
  pressedSpace :: bool

subsection \<open>Constants\<close>

definition GRAVITY :: real where
  "GRAVITY = 20"

definition JUMP_FORCE :: real where
  "JUMP_FORCE = 8"

definition GROUND_LEVEL :: real where
  "GROUND_LEVEL = 0"

definition DEG2RAD :: real where
  "DEG2RAD = pi / 180"

subsection \<open>Vector operations of raymath.h\<close>

definition vec3 :: "real \<Rightarrow> real \<Rightarrow> real \<Rightarrow> Vector3" where
  "vec3 a b c = \<lparr>vec_x = a, vec_y = b, vec_z = c\<rparr>"

definition Vector3Add :: "Vector3 \<Rightarrow> Vector3 \<Rightarrow> Vector3" where
  "Vector3Add v1 v2 = vec3 (vec_x v1 + vec_x v2) (vec_y v1 + vec_y v2) (vec_z v1 + vec_z v2)"

definition Vector3Subtract :: "Vector3 \<Rightarrow> Vector3 \<Rightarrow> Vector3" where
  "Vector3Subtract v1 v2 = vec3 (vec_x v1 - vec_x v2) (vec_y v1 - vec_y v2) (vec_z v1 - vec_z v2)"

definition Vector3Scale :: "Vector3 \<Rightarrow> real \<Rightarrow> Vector3" where
  "Vector3Scale v s = vec3 (vec_x v * s) (vec_y v * s) (vec_z v * s)"

definition Vector3Length :: "Vector3 \<Rightarrow> real" where
  "Vector3Length v = sqrt (vec_x v * vec_x v + vec_y v * vec_y v + vec_z v * vec_z v)"

definition Vector3CrossProduct :: "Vector3 \<Rightarrow> Vector3 \<Rightarrow> Vector3" where
  "Vector3CrossProduct v1 v2 =
     vec3 (vec_y v1 * vec_z v2 - vec_z v1 * vec_y v2)
          (vec_z v1 * vec_x v2 - vec_x v1 * vec_z v2)
          (vec_x v1 * vec_y v2 - vec_y v1 * vec_x v2)"

text \<open>A vector of length zero is returned as it is.\<close>

definition Vector3Normalize :: "Vector3 \<Rightarrow> Vector3" where
  "Vector3Normalize v =
     (let len = Vector3Length v in
      if len \<noteq> 0
      then (let ilength = 1 / len in vec3 (vec_x v * ilength) (vec_y v * ilength) (vec_z v * ilength))
      else v)"

subsection \<open>Collision tests\<close>

definition GetBoxBounds :: "CollisionBox \<Rightarrow> BoundingBox" where
  "GetBoxBounds box =
     \<lparr>bb_min = vec3 (vec_x (box_position box) - vec_x (box_size box) / 2)
                    (vec_y (box_position box) - vec_y (box_size box) / 2)
                    (vec_z (box_position box) - vec_z (box_size box) / 2),
      bb_max = vec3 (vec_x (box_position box) + vec_x (box_size box) / 2)
                    (vec_y (box_position box) + vec_y (box_size box) / 2)
                    (vec_z (box_position box) + vec_z (box_size box) / 2)\<rparr>"

text \<open>
  The test \<^verbatim>\<open>horizontalOverlap\<close> of \<^verbatim>\<open>ShouldApplyHorizontalCollision\<close>; the same four
  comparisons guard the standing test of the walking update.
\<close>

definition horizontalOverlap :: "Vector3 \<Rightarrow> real \<Rightarrow> BoundingBox \<Rightarrow> bool" where
  "horizontalOverlap playerPos r boxBounds \<longleftrightarrow>
     vec_x playerPos + r > vec_x (bb_min boxBounds) \<and>
     vec_x playerPos - r < vec_x (bb_max boxBounds) \<and>
     vec_z playerPos + r > vec_z (bb_min boxBounds) \<and>
     vec_z playerPos - r < vec_z (bb_max boxBounds)"

definition ShouldApplyHorizontalCollision ::
    "Vector3 \<Rightarrow> real \<Rightarrow> real \<Rightarrow> CollisionBox \<Rightarrow> bool" where
  "ShouldApplyHorizontalCollision playerPos r h box =
     (let boxBounds = GetBoxBounds box in
      if \<not> horizontalOverlap playerPos r boxBounds then False
      else (let feetY = vec_y playerPos - h in
        if feetY \<ge> vec_y (bb_max boxBounds) - 0.1 then False
        else if vec_y playerPos < vec_y (bb_min boxBounds) then False
        else True))"

definition ResolveCollision :: "Vector3 \<Rightarrow> real \<Rightarrow> real \<Rightarrow> CollisionBox \<Rightarrow> Vector3" where
  "ResolveCollision playerPos r h box =
     (let boxBounds = GetBoxBounds box;
          overlapX1 = (vec_x playerPos + r) - vec_x (bb_min boxBounds);
          overlapX2 = vec_x (bb_max boxBounds) - (vec_x playerPos - r);
          overlapZ1 = (vec_z playerPos + r) - vec_z (bb_min boxBounds);
          overlapZ2 = vec_z (bb_max boxBounds) - (vec_z playerPos - r);
          minOverlapX = (if overlapX1 < overlapX2 then - overlapX1 else overlapX2);
          minOverlapZ = (if overlapZ1 < overlapZ2 then - overlapZ1 else overlapZ2)
      in if \<bar>minOverlapX\<bar> < \<bar>minOverlapZ\<bar>
         then playerPos\<lparr>vec_x := vec_x playerPos + minOverlapX\<rparr>
         else playerPos\<lparr>vec_z := vec_z playerPos + minOverlapZ\<rparr>)"

subsection \<open>Look update and view directions\<close>

definition UpdateCameraLook :: "Player \<Rightarrow> real \<Rightarrow> FrameInput \<Rightarrow> Player" where
  "UpdateCameraLook player mouseSensitivity inp =
     (let p1 = player\<lparr>yaw := yaw player + mouseDelta_x inp * mouseSensitivity\<rparr>;
          p2 = p1\<lparr>pitch := pitch p1 - mouseDelta_y inp * mouseSensitivity\<rparr>;
          p3 = (if pitch p2 > 89 then p2\<lparr>pitch := 89\<rparr> else p2)
      in if pitch p3 < - 89 then p3\<lparr>pitch := - 89\<rparr> else p3)"

definition GetForwardDirection :: "Player \<Rightarrow> Vector3" where
  "GetForwardDirection player =
     Vector3Normalize
       (vec3 (cos (DEG2RAD * yaw player) * cos (DEG2RAD * pitch player))
             (sin (DEG2RAD * pitch player))
             (sin (DEG2RAD * yaw player) * cos (DEG2RAD * pitch player)))"

definition GetFlatForwardDirection :: "Player \<Rightarrow> Vector3" where
  "GetFlatForwardDirection player =
     Vector3Normalize (vec3 (cos (DEG2RAD * yaw player)) 0 (sin (DEG2RAD * yaw player)))"

subsection \<open>Noclip update\<close>

definition UpdateNoclipMode :: "Player \<Rightarrow> real \<Rightarrow> real \<Rightarrow> FrameInput \<Rightarrow> Player" where
  "UpdateNoclipMode player0 moveSpeed mouseSensitivity inp =
     (let deltaTime = frameTime inp;
          player = UpdateCameraLook player0 mouseSensitivity inp;
          forward = GetForwardDirection player;
          right = Vector3Normalize (Vector3CrossProduct forward (vec3 0 1 0));
          up = vec3 0 1 0;
          m0 = vec3 0 0 0;
          m1 = (if keyW inp then Vector3Add m0 forward else m0);
          m2 = (if keyS inp then Vector3Subtract m1 forward else m1);
          m3 = (if keyA inp then Vector3Subtract m2 right else m2);
          m4 = (if keyD inp then Vector3Add m3 right else m3);
          m5 = (if keySpace inp then Vector3Add m4 up else m4);
          m6 = (if keyLeftShift inp then Vector3Subtract m5 up else m5);
          currentSpeed = (if keyLeftControl inp then moveSpeed * 2.5 else moveSpeed);
          moveDir = (if Vector3Length m6 > 0
                     then Vector3Scale (Vector3Normalize m6) (currentSpeed * deltaTime)
                     else m6)
      in player\<lparr>position := Vector3Add (position player) moveDir,
                velocity := vec3 0 0 0,
                isGrounded := False\<rparr>)"

subsection \<open>Walking update\<close>

text \<open>The horizontal movement input: the direction \<^verbatim>\<open>moveDir\<close> after normalisation.\<close>

definition walkMoveDir :: "Player \<Rightarrow> FrameInput \<Rightarrow> Vector3" where
  "walkMoveDir player inp =
     (let forward = GetFlatForwardDirection player;
          right = Vector3Normalize (Vector3CrossProduct forward (vec3 0 1 0));
          m0 = vec3 0 0 0;
          m1 = (if keyW inp then Vector3Add m0 forward else m0);
          m2 = (if keyS inp then Vector3Subtract m1 forward else m1);
          m3 = (if keyA inp then Vector3Subtract m2 right else m2);
          m4 = (if keyD inp then Vector3Add m3 right else m3)
      in if Vector3Length m4 > 0 then Vector3Normalize m4 else m4)"

text \<open>
  Horizontal velocity, gravity and jump: the player after the three assignments to
  \<^verbatim>\<open>player->velocity\<close> and the one to \<^verbatim>\<open>player->isGrounded\<close> that precede the
  collision loop.
\<close>

definition walkVelocity :: "Player \<Rightarrow> real \<Rightarrow> FrameInput \<Rightarrow> Player" where
  "walkVelocity player moveSpeed inp =
     (let deltaTime = frameTime inp;
          moveDir = walkMoveDir player inp;
          currentSpeed = (if keyLeftControl inp then moveSpeed * 2 else moveSpeed);
          p1 = player\<lparr>velocity := (velocity player)\<lparr>vec_x := vec_x moveDir * currentSpeed\<rparr>\<rparr>;
          p2 = p1\<lparr>velocity := (velocity p1)\<lparr>vec_z := vec_z moveDir * currentSpeed\<rparr>\<rparr>;
          p3 = (if \<not> isGrounded p2
                then p2\<lparr>velocity := (velocity p2)\<lparr>vec_y := vec_y (velocity p2) - GRAVITY * deltaTime\<rparr>\<rparr>
                else p2)
      in if pressedSpace inp \<and> isGrounded p3
         then p3\<lparr>velocity := (velocity p3)\<lparr>vec_y := JUMP_FORCE\<rparr>, isGrounded := False\<rparr>
         else p3)"

text \<open>The loop over the colliders that pushes the candidate position out of each box in turn.\<close>

fun horizontalCollisions :: "Vector3 \<Rightarrow> real \<Rightarrow> real \<Rightarrow> CollisionBox list \<Rightarrow> Vector3" where
  "horizontalCollisions newPos r h [] = newPos"
| "horizontalCollisions newPos r h (box # colliders) =
     horizontalCollisions
       (if ShouldApplyHorizontalCollision newPos r h box
        then ResolveCollision newPos r h box else newPos)
       r h colliders"

text \<open>
  The loop that looks for a box to stand on; its state is the pair
  (\<^verbatim>\<open>foundGround\<close>, \<^verbatim>\<open>groundY\<close>).
\<close>

fun standingScan ::
    "Vector3 \<Rightarrow> real \<Rightarrow> real \<Rightarrow> real \<Rightarrow> bool \<times> real \<Rightarrow> CollisionBox list \<Rightarrow> bool \<times> real" where
  "standingScan newPos r h velY (foundGround, groundY) [] = (foundGround, groundY)"
| "standingScan newPos r h velY (foundGround, groundY) (box # colliders) =
     (let bounds = GetBoxBounds box;
          feetY = vec_y newPos - h
      in standingScan newPos r h velY
           (if horizontalOverlap newPos r bounds
               \<and> (feetY \<le> vec_y (bb_max bounds) + 0.05 \<and> feetY \<ge> vec_y (bb_max bounds) - 0.5)
               \<and> velY \<le> 0.01
            then (True, if vec_y (bb_max bounds) > groundY then vec_y (bb_max bounds) else groundY)
            else (foundGround, groundY))
           colliders)"

text \<open>Ground detection: the plane first, then the boxes.\<close>

definition groundSearch ::
    "Vector3 \<Rightarrow> real \<Rightarrow> real \<Rightarrow> real \<Rightarrow> CollisionBox list \<Rightarrow> bool \<times> real" where
  "groundSearch newPos r h velY colliders =
     standingScan newPos r h velY
       (if vec_y newPos - h \<le> GROUND_LEVEL + 0.05 then (True, GROUND_LEVEL)
        else (False, GROUND_LEVEL))
       colliders"

definition UpdateWalkingMode ::
    "Player \<Rightarrow> real \<Rightarrow> real \<Rightarrow> CollisionBox list \<Rightarrow> FrameInput \<Rightarrow> Player" where
  "UpdateWalkingMode player0 moveSpeed mouseSensitivity colliders inp =
     (let deltaTime = frameTime inp;
          player = walkVelocity (UpdateCameraLook player0 mouseSensitivity inp) moveSpeed inp;
          start = position player;
          newPos0 = start\<lparr>vec_x := vec_x start + vec_x (velocity player) * deltaTime\<rparr>;
          newPos1 = newPos0\<lparr>vec_z := vec_z newPos0 + vec_z (velocity player) * deltaTime\<rparr>;
          newPos2 = horizontalCollisions newPos1 (radius player) (height player) colliders;
          newPos3 = newPos2\<lparr>vec_y := vec_y newPos2 + vec_y (velocity player) * deltaTime\<rparr>;
          (foundGround, groundY) =
             groundSearch newPos3 (radius player) (height player) (vec_y (velocity player)) colliders
      in if foundGround \<and> vec_y (velocity player) \<le> 0.01
         then player\<lparr>velocity := (velocity player)\<lparr>vec_y := 0\<rparr>,
                     isGrounded := True,
                     position := newPos3\<lparr>vec_y := groundY + height player\<rparr>\<rparr>
         else player\<lparr>isGrounded := False, position := newPos3\<rparr>)"


text \<open>
  The game loop in walking mode: the frames of a list of inputs, one update each, with no
  mode toggle and no menu in between.
\<close>

fun walkRun :: "Player \<Rightarrow> real \<Rightarrow> real \<Rightarrow> CollisionBox list \<Rightarrow> FrameInput list \<Rightarrow> Player" where
  "walkRun player ms s colliders [] = player"
| "walkRun player ms s colliders (inp # inps) =
     walkRun (UpdateWalkingMode player ms s colliders inp) ms s colliders inps"

subsection \<open>Binary32 arithmetic\<close>

text \<open>
  Rounding to the nearest binary32 value, ties to the even significand. A nonzero x with
  2^e <= |x| < 2^(e+1) is rounded to the nearest multiple of 2^(e-23), which gives a
  significand of 24 bits. The exponent is not bounded: subnormal numbers and overflow are
  outside the model, the values of the update being far from both.
\<close>

definition roundTiesEven :: "real \<Rightarrow> int" where
  "roundTiesEven v =
     (let n = \<lfloor>v\<rfloor> in
      if v - of_int n < 1 / 2 then n
      else if 1 / 2 < v - of_int n then n + 1
      else if even n then n else n + 1)"

definition roundAt :: "int \<Rightarrow> real \<Rightarrow> real" where
  "roundAt e x = of_int (roundTiesEven (x / 2 powi (e - 23))) * 2 powi (e - 23)"

definition float32 :: "real \<Rightarrow> real" where
  "float32 x = (if x = 0 then 0 else roundAt \<lfloor>log 2 \<bar>x\<bar>\<rfloor> x)"

subsection \<open>The walking update in binary32\<close>

text \<open>
  The functions of the walking update once more, with the result of every operation on
  \<^verbatim>\<open>float\<close> values rounded where the source computes it: each sum, difference, product
  and quotient is rounded on its own, and a decimal literal such as \<^verbatim>\<open>0.1f\<close> is the
  rounded value of the decimal. Comparisons, negation and \<^verbatim>\<open>fabsf\<close> are exact on binary32
  values.
\<close>

definition GetBoxBounds32 :: "CollisionBox \<Rightarrow> BoundingBox" where
  "GetBoxBounds32 box =
     \<lparr>bb_min = vec3 (float32 (vec_x (box_position box) - float32 (vec_x (box_size box) / 2)))
                    (float32 (vec_y (box_position box) - float32 (vec_y (box_size box) / 2)))
                    (float32 (vec_z (box_position box) - float32 (vec_z (box_size box) / 2))),
      bb_max = vec3 (float32 (vec_x (box_position box) + float32 (vec_x (box_size box) / 2)))
                    (float32 (vec_y (box_position box) + float32 (vec_y (box_size box) / 2)))
                    (float32 (vec_z (box_position box) + float32 (vec_z (box_size box) / 2)))\<rparr>"

definition horizontalOverlap32 :: "Vector3 \<Rightarrow> real \<Rightarrow> BoundingBox \<Rightarrow> bool" where
  "horizontalOverlap32 playerPos r boxBounds \<longleftrightarrow>
     float32 (vec_x playerPos + r) > vec_x (bb_min boxBounds) \<and>
     float32 (vec_x playerPos - r) < vec_x (bb_max boxBounds) \<and>
     float32 (vec_z playerPos + r) > vec_z (bb_min boxBounds) \<and>
     float32 (vec_z playerPos - r) < vec_z (bb_max boxBounds)"

definition ShouldApplyHorizontalCollision32 ::
    "Vector3 \<Rightarrow> real \<Rightarrow> real \<Rightarrow> CollisionBox \<Rightarrow> bool" where
  "ShouldApplyHorizontalCollision32 playerPos r h box =
     (let boxBounds = GetBoxBounds32 box in
      if \<not> horizontalOverlap32 playerPos r boxBounds then False
      else (let feetY = float32 (vec_y playerPos - h) in
        if feetY \<ge> float32 (vec_y (bb_max boxBounds) - float32 0.1) then False
        else if vec_y playerPos < vec_y (bb_min boxBounds) then False
        else True))"

definition ResolveCollision32 :: "Vector3 \<Rightarrow> real \<Rightarrow> real \<Rightarrow> CollisionBox \<Rightarrow> Vector3" where
  "ResolveCollision32 playerPos r h box =
     (let boxBounds = GetBoxBounds32 box;
          overlapX1 = float32 (float32 (vec_x playerPos + r) - vec_x (bb_min boxBounds));
          overlapX2 = float32 (vec_x (bb_max boxBounds) - float32 (vec_x playerPos - r));
          overlapZ1 = float32 (float32 (vec_z playerPos + r) - vec_z (bb_min boxBounds));
          overlapZ2 = float32 (vec_z (bb_max boxBounds) - float32 (vec_z playerPos - r));
          minOverlapX = (if overlapX1 < overlapX2 then - overlapX1 else overlapX2);
          minOverlapZ = (if overlapZ1 < overlapZ2 then - overlapZ1 else overlapZ2)
      in if \<bar>minOverlapX\<bar> < \<bar>minOverlapZ\<bar>
         then playerPos\<lparr>vec_x := float32 (vec_x playerPos + minOverlapX)\<rparr>
         else playerPos\<lparr>vec_z := float32 (vec_z playerPos + minOverlapZ)\<rparr>)"

fun horizontalCollisions32 :: "Vector3 \<Rightarrow> real \<Rightarrow> real \<Rightarrow> CollisionBox list \<Rightarrow> Vector3" where
  "horizontalCollisions32 newPos r h [] = newPos"
| "horizontalCollisions32 newPos r h (box # colliders) =
     horizontalCollisions32
       (if ShouldApplyHorizontalCollision32 newPos r h box
        then ResolveCollision32 newPos r h box else newPos)
       r h colliders"

text \<open>
  The direction \<^verbatim>\<open>moveDir\<close> of a frame is computed by the source with \<^verbatim>\<open>cosf\<close>,
  \<^verbatim>\<open>sinf\<close> and \<^verbatim>\<open>sqrtf\<close> of the C library, whose binary32 results the language does not
  fix. In this embedding a frame is therefore the pair of the direction, as it is after
  the normalisation, and the frame inputs; the yaw kept in the player record is updated
  as in the source but is not read again.
\<close>

definition UpdateCameraLook32 :: "Player \<Rightarrow> real \<Rightarrow> FrameInput \<Rightarrow> Player" where
  "UpdateCameraLook32 player mouseSensitivity inp =
     (let p1 = player\<lparr>yaw := float32 (yaw player + float32 (mouseDelta_x inp * mouseSensitivity))\<rparr>;
          p2 = p1\<lparr>pitch := float32 (pitch p1 - float32 (mouseDelta_y inp * mouseSensitivity))\<rparr>;
          p3 = (if pitch p2 > 89 then p2\<lparr>pitch := 89\<rparr> else p2)
      in if pitch p3 < - 89 then p3\<lparr>pitch := - 89\<rparr> else p3)"

definition walkVelocity32 :: "Player \<Rightarrow> Vector3 \<Rightarrow> real \<Rightarrow> FrameInput \<Rightarrow> Player" where
  "walkVelocity32 player moveDir moveSpeed inp =
     (let deltaTime = frameTime inp;
          currentSpeed = (if keyLeftControl inp then float32 (moveSpeed * 2) else moveSpeed);
          p1 = player\<lparr>velocity := (velocity player)\<lparr>vec_x := float32 (vec_x moveDir * currentSpeed)\<rparr>\<rparr>;
          p2 = p1\<lparr>velocity := (velocity p1)\<lparr>vec_z := float32 (vec_z moveDir * currentSpeed)\<rparr>\<rparr>;
          p3 = (if \<not> isGrounded p2
                then p2\<lparr>velocity := (velocity p2)
                       \<lparr>vec_y := float32 (vec_y (velocity p2) - float32 (GRAVITY * deltaTime))\<rparr>\<rparr>
                else p2)
      in if pressedSpace inp \<and> isGrounded p3
         then p3\<lparr>velocity := (velocity p3)\<lparr>vec_y := JUMP_FORCE\<rparr>, isGrounded := False\<rparr>
         else p3)"

fun standingScan32 ::
    "Vector3 \<Rightarrow> real \<Rightarrow> real \<Rightarrow> real \<Rightarrow> bool \<times> real \<Rightarrow> CollisionBox list \<Rightarrow> bool \<times> real" where
  "standingScan32 newPos r h velY (foundGround, groundY) [] = (foundGround, groundY)"
| "standingScan32 newPos r h velY (foundGround, groundY) (box # colliders) =
     (let bounds = GetBoxBounds32 box;
          feetY = float32 (vec_y newPos - h)
      in standingScan32 newPos r h velY
           (if horizontalOverlap32 newPos r bounds
               \<and> (feetY \<le> float32 (vec_y (bb_max bounds) + float32 0.05)
                  \<and> feetY \<ge> float32 (vec_y (bb_max bounds) - float32 0.5))
               \<and> velY \<le> float32 0.01
            then (True, if vec_y (bb_max bounds) > groundY then vec_y (bb_max bounds) else groundY)
            else (foundGround, groundY))
           colliders)"

definition groundSearch32 ::
    "Vector3 \<Rightarrow> real \<Rightarrow> real \<Rightarrow> real \<Rightarrow> CollisionBox list \<Rightarrow> bool \<times> real" where
  "groundSearch32 newPos r h velY colliders =
     standingScan32 newPos r h velY
       (if float32 (vec_y newPos - h) \<le> float32 (GROUND_LEVEL + float32 0.05)
        then (True, GROUND_LEVEL)
        else (False, GROUND_LEVEL))
       colliders"

definition UpdateWalkingMode32 ::
    "Player \<Rightarrow> real \<Rightarrow> real \<Rightarrow> CollisionBox list \<Rightarrow> Vector3 \<times> FrameInput \<Rightarrow> Player" where
  "UpdateWalkingMode32 player0 moveSpeed mouseSensitivity colliders frame =
     (let moveDir = fst frame;
          inp = snd frame;
          deltaTime = frameTime inp;
          player = walkVelocity32 (UpdateCameraLook32 player0 mouseSensitivity inp) moveDir moveSpeed inp;
          start = position player;
          newPos0 = start\<lparr>vec_x := float32 (vec_x start + float32 (vec_x (velocity player) * deltaTime))\<rparr>;
          newPos1 = newPos0\<lparr>vec_z := float32 (vec_z newPos0 + float32 (vec_z (velocity player) * deltaTime))\<rparr>;
          newPos2 = horizontalCollisions32 newPos1 (radius player) (height player) colliders;
          newPos3 = newPos2\<lparr>vec_y := float32 (vec_y newPos2 + float32 (vec_y (velocity player) * deltaTime))\<rparr>;
          (foundGround, groundY) =
             groundSearch32 newPos3 (radius player) (height player) (vec_y (velocity player)) colliders
      in if foundGround \<and> vec_y (velocity player) \<le> float32 0.01
         then player\<lparr>velocity := (velocity player)\<lparr>vec_y := 0\<rparr>,
                     isGrounded := True,
                     position := newPos3\<lparr>vec_y := float32 (groundY + height player)\<rparr>\<rparr>
         else player\<lparr>isGrounded := False, position := newPos3\<rparr>)"

fun walkRun32 ::
    "Player \<Rightarrow> real \<Rightarrow> real \<Rightarrow> CollisionBox list \<Rightarrow> (Vector3 \<times> FrameInput) list \<Rightarrow> Player" where
  "walkRun32 player ms s colliders [] = player"
| "walkRun32 player ms s colliders (frame # frames) =
     walkRun32 (UpdateWalkingMode32 player ms s colliders frame) ms s colliders frames"

subsection \<open>The scene of \<^verbatim>\<open>main\<close>\<close>

text \<open>The player as \<^verbatim>\<open>main\<close> sets it up, and the centre cube, the first collider.\<close>

definition initialPlayer :: Player where
  "initialPlayer =
     \<lparr>position = vec3 0 1.8 10, velocity = vec3 0 0 0, yaw = - 90, pitch = 0,
      height = 1.8, radius = 0.3, isGrounded = False, noclipMode = False\<rparr>"

definition centerCube :: CollisionBox where
  "centerCube = \<lparr>box_position = vec3 0 1 0, box_size = vec3 2 2 2\<rparr>"

text \<open>A frame of the given length in which no key is held and the pointer does not move.\<close>

definition idleFrame :: "real \<Rightarrow> FrameInput" where
  "idleFrame dt =
     \<lparr>frameTime = dt, mouseDelta_x = 0, mouseDelta_y = 0,
      keyW = False, keyS = False, keyA = False, keyD = False,
      keySpace = False, keyLeftShift = False, keyLeftControl = False,
      pressedSpace = False\<rparr>"


subsection \<open>Notions used to state the properties\<close>

text \<open>The top and the bottom of a box, and the overlap of the player's square footprint
  (half-width the radius) with the box's footprint, with every bound strict.\<close>

definition boxTop :: "CollisionBox \<Rightarrow> real" where
  "boxTop box = vec_y (box_position box) + vec_y (box_size box) / 2"

definition boxBottom :: "CollisionBox \<Rightarrow> real" where
  "boxBottom box = vec_y (box_position box) - vec_y (box_size box) / 2"

definition projectedOverlap :: "Vector3 \<Rightarrow> real \<Rightarrow> CollisionBox \<Rightarrow> bool" where
  "projectedOverlap pos r box \<longleftrightarrow>
     vec_x (box_position box) - vec_x (box_size box) / 2 < vec_x pos + r
     \<and> vec_x pos - r < vec_x (box_position box) + vec_x (box_size box) / 2
     \<and> vec_z (box_position box) - vec_z (box_size box) / 2 < vec_z pos + r
     \<and> vec_z pos - r < vec_z (box_position box) + vec_z (box_size box) / 2"

text \<open>
  The signed push along one axis that takes the player's footprint out of the box: the
  distance to the low face, negated, if that is the smaller one, else the distance to the
  high face.
\<close>

definition pushX :: "Vector3 \<Rightarrow> real \<Rightarrow> CollisionBox \<Rightarrow> real" where
  "pushX pos r box =
     (let lowSide = (vec_x pos + r) - (vec_x (box_position box) - vec_x (box_size box) / 2);
          highSide = (vec_x (box_position box) + vec_x (box_size box) / 2) - (vec_x pos - r)
      in if lowSide < highSide then - lowSide else highSide)"

definition pushZ :: "Vector3 \<Rightarrow> real \<Rightarrow> CollisionBox \<Rightarrow> real" where
  "pushZ pos r box =
     (let lowSide = (vec_z pos + r) - (vec_z (box_position box) - vec_z (box_size box) / 2);
          highSide = (vec_z (box_position box) + vec_z (box_size box) / 2) - (vec_z pos - r)
      in if lowSide < highSide then - lowSide else highSide)"

text \<open>
  Ground detection in the words of the specification: the plane qualifies when the feet
  are at most 0.05 above it; a box qualifies when its footprint, widened by the radius,
  contains the candidate position, the feet lie between its top minus 0.5 and its top
  plus 0.05, and the vertical velocity is at most 0.01. The qualifying surfaces are
  listed by their heights.
\<close>

definition planeQualifies :: "Vector3 \<Rightarrow> real \<Rightarrow> bool" where
  "planeQualifies newPos h \<longleftrightarrow> vec_y newPos - h \<le> 0.05"

definition standable :: "Vector3 \<Rightarrow> real \<Rightarrow> real \<Rightarrow> real \<Rightarrow> CollisionBox \<Rightarrow> bool" where
  "standable newPos r h velY box \<longleftrightarrow>
     projectedOverlap newPos r box
     \<and> boxTop box - 0.5 \<le> vec_y newPos - h \<and> vec_y newPos - h \<le> boxTop box + 0.05
     \<and> velY \<le> 0.01"

definition qualifyingSurfaces ::
    "Vector3 \<Rightarrow> real \<Rightarrow> real \<Rightarrow> real \<Rightarrow> CollisionBox list \<Rightarrow> real list" where
  "qualifyingSurfaces newPos r h velY colliders =
     (if planeQualifies newPos h then [0] else [])
     @ map boxTop (filter (standable newPos r h velY) colliders)"

text \<open>
  The candidate position of the walking update after the collision loop and the vertical
  movement: the value of \<^verbatim>\<open>newPos\<close> when ground detection starts.
\<close>

definition walkCandidate ::
    "Player \<Rightarrow> real \<Rightarrow> real \<Rightarrow> CollisionBox list \<Rightarrow> FrameInput \<Rightarrow> Vector3" where
  "walkCandidate player0 moveSpeed mouseSensitivity colliders inp =
     (let deltaTime = frameTime inp;
          player = walkVelocity (UpdateCameraLook player0 mouseSensitivity inp) moveSpeed inp;
          start = position player;
          newPos0 = start\<lparr>vec_x := vec_x start + vec_x (velocity player) * deltaTime\<rparr>;
          newPos1 = newPos0\<lparr>vec_z := vec_z newPos0 + vec_z (velocity player) * deltaTime\<rparr>;
          newPos2 = horizontalCollisions newPos1 (radius player) (height player) colliders
      in newPos2\<lparr>vec_y := vec_y newPos2 + vec_y (velocity player) * deltaTime\<rparr>)"

text \<open>Players and a box used as examples: a player just above the centre cube, one high
  above the ground, one about to land where a low box lies on the plane.\<close>

definition aboveCube :: Player where
  "aboveCube = initialPlayer\<lparr>position := vec3 0 3.8125 0\<rparr>"

definition highUp :: Player where
  "highUp = initialPlayer\<lparr>position := vec3 0 10 0\<rparr>"

definition fallingPlayer :: Player where
  "fallingPlayer = initialPlayer\<lparr>position := vec3 0 3.8 10\<rparr>"

definition lowBox :: CollisionBox where
  "lowBox = \<lparr>box_position = vec3 0 0.125 0, box_size = vec3 2 0.25 2\<rparr>"

definition aboveLowBox :: Player where
  "aboveLowBox = initialPlayer\<lparr>position := vec3 0 2 0\<rparr>"

text \<open>
  The approach to the centre cube from the +x side, in binary32. Three tolerances:
  the position may fall short of the cube's x face, widened by the radius, by at most
  \<^verbatim>\<open>pushTolerance\<close>; the step of a frame stays \<^verbatim>\<open>stepMargin\<close> below its bound; and a
  candidate position keeps \<^verbatim>\<open>candidateMargin\<close> between its x and the size of its z.

  A frame of the approach: the direction of the frame lies along the x axis with a
  component of size at most 1, the jump key is not pressed, the frame time is not
  negative, and the horizontal step of the frame (speed times frame time) is at most
  the distance 1 + r - |z| that separates the cube's x face, widened by the radius, from
  the lateral offset z, less the margin. The invariant of the approach: the player keeps
  its lateral offset, is at or beyond the widened x face up to the tolerance, is at a
  height where the cube collides and cannot be stood on, and does not move upwards.
\<close>

definition pushTolerance :: real where
  "pushTolerance = 1 / 100000"

definition stepMargin :: real where
  "stepMargin = 1 / 10000"

definition candidateMargin :: real where
  "candidateMargin = 1 / 50000"

definition approachFrame32 :: "real \<Rightarrow> real \<Rightarrow> real \<Rightarrow> Vector3 \<times> FrameInput \<Rightarrow> bool" where
  "approachFrame32 moveSpeed r z frame \<longleftrightarrow>
     \<bar>vec_x (fst frame)\<bar> \<le> 1 \<and> vec_z (fst frame) = 0
     \<and> \<not> pressedSpace (snd frame)
     \<and> 0 \<le> frameTime (snd frame)
     \<and> (if keyLeftControl (snd frame) then moveSpeed * 2 else moveSpeed) * frameTime (snd frame)
          \<le> 1 + r - \<bar>z\<bar> - stepMargin"

definition approachInv32 :: "real \<Rightarrow> real \<Rightarrow> real \<Rightarrow> Player \<Rightarrow> bool" where
  "approachInv32 r h z p \<longleftrightarrow>
     radius p = r \<and> height p = h
     \<and> vec_z (position p) = z \<and> 1 + r - pushTolerance \<le> vec_x (position p)
     \<and> 0 \<le> vec_y (position p) \<and> float32 (vec_y (position p)) = vec_y (position p)
     \<and> vec_y (position p) - h \<le> 1
     \<and> vec_y (velocity p) \<le> 0"

text \<open>A player at (5, 1, 0) of radius 0.5 and height 1 that looks along +x, the same
  player at the lateral offset 5/4, the same player with the radius \<^verbatim>\<open>0.3f\<close> and the
  height \<^verbatim>\<open>1.8f\<close> that \<^verbatim>\<open>main\<close> gives its player, and a frame in which only the back
  key (and, if asked, the sprint key) is held. At yaw 0 with only the back key held the
  direction of the frame is (-1, 0, 0).\<close>

definition approachPlayer :: Player where
  "approachPlayer =
     \<lparr>position = vec3 5 1 0, velocity = vec3 0 0 0, yaw = 0, pitch = 0,
      height = 1, radius = 0.5, isGrounded = True, noclipMode = False\<rparr>"

definition backFrame :: "real \<Rightarrow> bool \<Rightarrow> FrameInput" where
  "backFrame dt sprint = (idleFrame dt)\<lparr>keyS := True, keyLeftControl := sprint\<rparr>"

definition cornerPlayer :: Player where
  "cornerPlayer = approachPlayer\<lparr>position := vec3 5 1 (5 / 4)\<rparr>"

definition mainSizedPlayer :: Player where
  "mainSizedPlayer = approachPlayer\<lparr>height := float32 1.8, radius := float32 0.3\<rparr>"

definition backFrame32 :: "real \<Rightarrow> bool \<Rightarrow> Vector3 \<times> FrameInput" where
  "backFrame32 dt sprint = (vec3 (- 1) 0 0, backFrame dt sprint)"

section \<open>Basic facts about the updates\<close>

lemma vec3_sel [simp]:
  "vec_x (vec3 a b c) = a" "vec_y (vec3 a b c) = b" "vec_z (vec3 a b c) = c"
  by (simp_all add: vec3_def)

lemma GetBoxBounds_simps [simp]:
  "vec_x (bb_min (GetBoxBounds box)) = vec_x (box_position box) - vec_x (box_size box) / 2"
  "vec_y (bb_min (GetBoxBounds box)) = vec_y (box_position box) - vec_y (box_size box) / 2"
  "vec_z (bb_min (GetBoxBounds box)) = vec_z (box_position box) - vec_z (box_size box) / 2"
  "vec_x (bb_max (GetBoxBounds box)) = vec_x (box_position box) + vec_x (box_size box) / 2"
  "vec_y (bb_max (GetBoxBounds box)) = vec_y (box_position box) + vec_y (box_size box) / 2"
  "vec_z (bb_max (GetBoxBounds box)) = vec_z (box_position box) + vec_z (box_size box) / 2"
  by (simp_all add: GetBoxBounds_def)

lemma horizontalOverlap_projected:
  "horizontalOverlap pos r (GetBoxBounds box) = projectedOverlap pos r box"
  by (simp add: horizontalOverlap_def projectedOverlap_def)

text \<open>For a positive radius and a box of positive width and depth, the four strict
  comparisons say that the open footprints intersect.\<close>

lemma projectedOverlap_intervals:
  assumes "0 < r" and "0 < vec_x (box_size box)" and "0 < vec_z (box_size box)"
  shows "projectedOverlap pos r box \<longleftrightarrow>
     {vec_x pos - r <..< vec_x pos + r} \<inter>
       {vec_x (box_position box) - vec_x (box_size box) / 2 <..<
        vec_x (box_position box) + vec_x (box_size box) / 2} \<noteq> {}
     \<and> {vec_z pos - r <..< vec_z pos + r} \<inter>
       {vec_z (box_position box) - vec_z (box_size box) / 2 <..<
        vec_z (box_position box) + vec_z (box_size box) / 2} \<noteq> {}"
  using assms
  by (auto simp: projectedOverlap_def Int_greaterThanLessThan greaterThanLessThan_empty_iff)

lemma ShouldApply_iff:
  "ShouldApplyHorizontalCollision pos r h box \<longleftrightarrow>
     horizontalOverlap pos r (GetBoxBounds box)
     \<and> vec_y pos - h < vec_y (bb_max (GetBoxBounds box)) - 0.1
     \<and> \<not> vec_y pos < vec_y (bb_min (GetBoxBounds box))"
  by (auto simp: ShouldApplyHorizontalCollision_def Let_def)

lemma UpdateCameraLook_fields [simp]:
  "position (UpdateCameraLook p s inp) = position p"
  "velocity (UpdateCameraLook p s inp) = velocity p"
  "height (UpdateCameraLook p s inp) = height p"
  "radius (UpdateCameraLook p s inp) = radius p"
  "isGrounded (UpdateCameraLook p s inp) = isGrounded p"
  "noclipMode (UpdateCameraLook p s inp) = noclipMode p"
  "yaw (UpdateCameraLook p s inp) = yaw p + mouseDelta_x inp * s"
  by (simp_all add: UpdateCameraLook_def Let_def)

lemma UpdateCameraLook_pitch:
  "pitch (UpdateCameraLook p s inp) = max (- 89) (min 89 (pitch p - mouseDelta_y inp * s))"
  by (simp add: UpdateCameraLook_def Let_def)

lemma walkVelocity_fields [simp]:
  "position (walkVelocity p ms inp) = position p"
  "height (walkVelocity p ms inp) = height p"
  "radius (walkVelocity p ms inp) = radius p"
  "yaw (walkVelocity p ms inp) = yaw p"
  "pitch (walkVelocity p ms inp) = pitch p"
  "noclipMode (walkVelocity p ms inp) = noclipMode p"
  by (simp_all add: walkVelocity_def Let_def)

lemma UpdateWalkingMode_look:
  "pitch (UpdateWalkingMode p ms s cs inp) = pitch (UpdateCameraLook p s inp)"
  "yaw (UpdateWalkingMode p ms s cs inp) = yaw (UpdateCameraLook p s inp)"
  by (simp_all add: UpdateWalkingMode_def Let_def split: prod.split)

lemma UpdateNoclipMode_look:
  "pitch (UpdateNoclipMode p ms s inp) = pitch (UpdateCameraLook p s inp)"
  "yaw (UpdateNoclipMode p ms s inp) = yaw (UpdateCameraLook p s inp)"
  by (simp_all add: UpdateNoclipMode_def Let_def)

lemma walkVelocity_jump:
  assumes "isGrounded p" and "pressedSpace inp"
  shows "vec_y (velocity (walkVelocity p ms inp)) = JUMP_FORCE"
    and "\<not> isGrounded (walkVelocity p ms inp)"
  using assms by (simp_all add: walkVelocity_def Let_def)

lemma ResolveCollision_push:
  "ResolveCollision pos r h box =
     (if \<bar>pushX pos r box\<bar> < \<bar>pushZ pos r box\<bar>
      then pos\<lparr>vec_x := vec_x pos + pushX pos r box\<rparr>
      else pos\<lparr>vec_z := vec_z pos + pushZ pos r box\<rparr>)"
  by (simp add: ResolveCollision_def pushX_def pushZ_def Let_def)

lemma ResolveCollision_y [simp]: "vec_y (ResolveCollision pos r h box) = vec_y pos"
  by (simp add: ResolveCollision_push)

lemma UpdateWalkingMode_candidate:
  "UpdateWalkingMode player0 ms s colliders inp =
     (let player = walkVelocity (UpdateCameraLook player0 s inp) ms inp;
          c = walkCandidate player0 ms s colliders inp;
          g = groundSearch c (radius player0) (height player0) (vec_y (velocity player)) colliders
      in if fst g \<and> vec_y (velocity player) \<le> 0.01
         then player\<lparr>velocity := (velocity player)\<lparr>vec_y := 0\<rparr>,
                     isGrounded := True,
                     position := c\<lparr>vec_y := snd g + height player0\<rparr>\<rparr>
         else player\<lparr>isGrounded := False, position := c\<rparr>)"
  by (simp add: UpdateWalkingMode_def walkCandidate_def Let_def split: prod.split)

lemma standingScan_fold:
  "standingScan newPos r h velY (f, g) cs =
     (f \<or> (\<exists>b \<in> set cs. standable newPos r h velY b),
      fold max (map boxTop (filter (standable newPos r h velY) cs)) g)"
proof (induction cs arbitrary: f g)
  case Nil
  then show ?case by simp
next
  case (Cons b cs)
  show ?case
  proof (cases "standable newPos r h velY b")
    case True
    then have "standingScan newPos r h velY (f, g) (b # cs)
        = standingScan newPos r h velY (True, max (boxTop b) g) cs"
      by (simp add: standable_def Let_def horizontalOverlap_projected boxTop_def max_def)
    with True show ?thesis by (simp add: Cons.IH)
  next
    case False
    then have "standingScan newPos r h velY (f, g) (b # cs)
        = standingScan newPos r h velY (f, g) cs"
      by (auto simp: standable_def Let_def horizontalOverlap_projected boxTop_def)
    with False show ?thesis by (simp add: Cons.IH)
  qed
qed

lemma groundSearch_Max:
  "groundSearch newPos r h velY cs =
     (qualifyingSurfaces newPos r h velY cs \<noteq> [],
      Max (set (0 # map boxTop (filter (standable newPos r h velY) cs))))"
proof -
  have m: "fold max ts (0::real) = Max (set (0 # ts))" for ts
    by (rule Max.set_eq_fold [symmetric])
  show ?thesis
    unfolding groundSearch_def m [symmetric]
    by (auto simp: standingScan_fold qualifyingSurfaces_def planeQualifies_def
        GROUND_LEVEL_def filter_empty_conv)
qed

lemma qualifying_Max:
  assumes "qualifyingSurfaces newPos r h velY cs \<noteq> []"
  shows "Max (set (0 # map boxTop (filter (standable newPos r h velY) cs)))
     = Max (set (qualifyingSurfaces newPos r h velY cs))"
proof (cases "planeQualifies newPos h")
  case True
  then show ?thesis by (simp add: qualifyingSurfaces_def)
next
  case False
  let ?T = "map boxTop (filter (standable newPos r h velY) cs)"
  from False assms have ne: "?T \<noteq> []" by (simp add: qualifyingSurfaces_def)
  have pos: "0 < t" if "t \<in> set ?T" for t
    using that False by (auto simp: standable_def planeQualifies_def)
  have "Max (set (0 # ?T)) = max 0 (Max (set ?T))"
    using ne by (simp add: Max_insert del: set_map)
  also have "0 < Max (set ?T)"
    using ne pos by (metis List.finite_set Max_in set_empty)
  then have "max 0 (Max (set ?T)) = Max (set ?T)" by simp
  finally show ?thesis using False by (simp add: qualifyingSurfaces_def)
qed

lemma groundSearch_qualifying:
  "groundSearch newPos r h velY cs =
     (qualifyingSurfaces newPos r h velY cs \<noteq> [],
      if qualifyingSurfaces newPos r h velY cs \<noteq> []
      then Max (set (qualifyingSurfaces newPos r h velY cs)) else 0)"
proof (cases "qualifyingSurfaces newPos r h velY cs = []")
  case True
  then have "filter (standable newPos r h velY) cs = []"
    by (simp add: qualifyingSurfaces_def)
  with True show ?thesis by (simp add: groundSearch_Max)
next
  case False
  show ?thesis
    unfolding groundSearch_Max qualifying_Max [OF False] using False by simp
qed

lemma walkMoveDir_no_keys:
  assumes "\<not> keyW inp" "\<not> keyS inp" "\<not> keyA inp" "\<not> keyD inp"
  shows "walkMoveDir p inp = vec3 0 0 0"
  using assms by (simp add: walkMoveDir_def Let_def Vector3Length_def)

lemma walkRun_append:
  "walkRun p ms s cs (xs @ ys) = walkRun (walkRun p ms s cs xs) ms s cs ys"
  by (induction xs arbitrary: p) simp_all

lemma walkRun_Suc:
  "walkRun p ms s cs (map f [0..<Suc k])
     = UpdateWalkingMode (walkRun p ms s cs (map f [0..<k])) ms s cs (f k)"
  by (simp add: walkRun_append)

lemma walkRun_add:
  "walkRun p ms s cs (map f [0..<a + b])
     = walkRun (walkRun p ms s cs (map f [0..<a])) ms s cs (map (\<lambda>j. f (a + j)) [0..<b])"
proof -
  have "map (\<lambda>j. a + j) [0..<b] = map (\<lambda>j. j + a) [0..<b]"
    by (simp only: add.commute)
  also have "\<dots> = [a..<b + a]" by (rule map_add_upt)
  also have "\<dots> = [a..<a + b]" by (simp only: add.commute)
  finally have m: "map (\<lambda>j. a + j) [0..<b] = [a..<a + b]" .
  have "[0..<a + b] = [0..<a] @ [a..<a + b]"
    by (rule upt_add_eq_append) simp
  then have "map f [0..<a + b] = map f [0..<a] @ map (\<lambda>j. f (a + j)) [0..<b]"
    by (simp only: map_append m [symmetric] map_map comp_def)
  then show ?thesis by (simp only: walkRun_append)
qed

lemma UpdateWalkingMode_height [simp]:
  "height (UpdateWalkingMode p ms s cs inp) = height p"
  by (simp add: UpdateWalkingMode_candidate Let_def)

lemma UpdateWalkingMode_radius [simp]:
  "radius (UpdateWalkingMode p ms s cs inp) = radius p"
  by (simp add: UpdateWalkingMode_candidate Let_def)

lemma walkRun_height [simp]: "height (walkRun p ms s cs inps) = height p"
  by (induction inps arbitrary: p) simp_all

lemma walkVelocity_airborne:
  assumes "\<not> isGrounded p"
  shows "vec_y (velocity (walkVelocity p ms inp)) = vec_y (velocity p) - GRAVITY * frameTime inp"
    and "\<not> isGrounded (walkVelocity p ms inp)"
  using assms by (simp_all add: walkVelocity_def Let_def)

lemma walkCandidate_Nil_y:
  "vec_y (walkCandidate p ms s [] inp)
     = vec_y (position p)
       + vec_y (velocity (walkVelocity (UpdateCameraLook p s inp) ms inp)) * frameTime inp"
  by (simp add: walkCandidate_def Let_def)

lemma groundSearch_Nil: "groundSearch c r h v [] = (vec_y c - h \<le> 0.05, 0)"
  by (simp add: groundSearch_def GROUND_LEVEL_def)

lemma fall_step:
  assumes "\<not> isGrounded q"
  shows "(if vec_y (position q) + (vec_y (velocity q) - 20 * frameTime inp) * frameTime inp
              - height q \<le> 0.05
            \<and> vec_y (velocity q) - 20 * frameTime inp \<le> 0.01
          then isGrounded (UpdateWalkingMode q ms s [] inp)
            \<and> vec_y (velocity (UpdateWalkingMode q ms s [] inp)) = 0
            \<and> vec_y (position (UpdateWalkingMode q ms s [] inp)) = height q
          else \<not> isGrounded (UpdateWalkingMode q ms s [] inp)
            \<and> vec_y (velocity (UpdateWalkingMode q ms s [] inp))
                = vec_y (velocity q) - 20 * frameTime inp
            \<and> vec_y (position (UpdateWalkingMode q ms s [] inp))
                = vec_y (position q) + (vec_y (velocity q) - 20 * frameTime inp) * frameTime inp)"
proof -
  have v: "vec_y (velocity (walkVelocity (UpdateCameraLook q s inp) ms inp))
      = vec_y (velocity q) - 20 * frameTime inp"
    using assms walkVelocity_airborne(1) [of "UpdateCameraLook q s inp" ms inp]
    by (simp add: GRAVITY_def)
  have g: "\<not> isGrounded (walkVelocity (UpdateCameraLook q s inp) ms inp)"
    using assms walkVelocity_airborne(2) [of "UpdateCameraLook q s inp" ms inp] by simp
  show ?thesis
    by (simp add: UpdateWalkingMode_candidate Let_def groundSearch_Nil walkCandidate_Nil_y v g)
qed

lemma fall_step_airborne:
  assumes "\<not> isGrounded q" and "\<not> isGrounded (UpdateWalkingMode q ms s [] inp)"
  shows "vec_y (velocity (UpdateWalkingMode q ms s [] inp))
           = vec_y (velocity q) - 20 * frameTime inp"
    and "vec_y (position (UpdateWalkingMode q ms s [] inp))
           = vec_y (position q) + (vec_y (velocity q) - 20 * frameTime inp) * frameTime inp"
  using fall_step [OF assms(1), of inp ms s, unfolded if_bool_eq_conj] assms(2) by blast+

lemma fall_step_landing:
  assumes "\<not> isGrounded q" and "isGrounded (UpdateWalkingMode q ms s [] inp)"
  shows "vec_y (velocity (UpdateWalkingMode q ms s [] inp)) = 0"
    and "vec_y (position (UpdateWalkingMode q ms s [] inp)) = height q"
  using fall_step [OF assms(1), of inp ms s, unfolded if_bool_eq_conj] assms(2) by blast+

lemma fall_step_lands:
  assumes "\<not> isGrounded q"
    and "vec_y (position q) + (vec_y (velocity q) - 20 * frameTime inp) * frameTime inp
           - height q \<le> 0.05"
    and "vec_y (velocity q) - 20 * frameTime inp \<le> 0.01"
  shows "isGrounded (UpdateWalkingMode q ms s [] inp)"
  using fall_step [OF assms(1), of inp ms s, unfolded if_bool_eq_conj] assms(2,3) by blast

lemma falling_player_lands:
  assumes ng: "\<not> isGrounded q" and v0: "vec_y (velocity q) \<le> 0"
    and d: "0 < d" and dt: "\<And>k. d \<le> frameTime (f k)"
  shows "\<exists>m. isGrounded (walkRun q ms s [] (map f [0..<Suc m]))"
proof (rule ccontr)
  define R where "R k = walkRun q ms s [] (map f [0..<k])" for k
  define A where "A = 20 * d * d"
  assume "\<not> ?thesis"
  then have air: "\<not> isGrounded (R (Suc m))" for m unfolding R_def by blast
  have R0: "R 0 = q" by (simp add: R_def)
  have RS: "R (Suc m) = UpdateWalkingMode (R m) ms s [] (f m)" for m
    unfolding R_def by (rule walkRun_Suc)
  have Rh: "height (R m) = height q" for m by (simp add: R_def)
  have airall: "\<not> isGrounded (R m)" for m
    using ng air R0 by (cases m) simp_all
  have pos_dt: "0 < frameTime (f k)" for k
    using d dt [of k] by linarith
  have A: "0 < A" using d by (simp add: A_def)
  have drop: "(v - 20 * frameTime (f m)) * frameTime (f m) \<le> - A" if "v \<le> 0" for v m
  proof -
    have "v - 20 * frameTime (f m) \<le> - 20 * d" using that dt [of m] by linarith
    then have "(v - 20 * frameTime (f m)) * frameTime (f m) \<le> (- 20 * d) * frameTime (f m)"
      using pos_dt [of m] by (intro mult_right_mono) simp_all
    also have "\<dots> \<le> (- 20 * d) * d"
      using d dt [of m] by (intro mult_left_mono_neg) simp_all
    finally show ?thesis by (simp add: A_def)
  qed
  have inv: "vec_y (velocity (R m)) \<le> 0
      \<and> vec_y (position (R m)) \<le> vec_y (position q) - A * real m" for m
  proof (induction m)
    case 0
    then show ?case using v0 R0 by simp
  next
    case (Suc m)
    have a: "\<not> isGrounded (UpdateWalkingMode (R m) ms s [] (f m))"
      using air [of m] unfolding RS .
    have st1: "vec_y (velocity (R (Suc m))) = vec_y (velocity (R m)) - 20 * frameTime (f m)"
      unfolding RS by (rule fall_step_airborne(1) [OF airall [of m] a])
    have st2: "vec_y (position (R (Suc m))) = vec_y (position (R m))
        + (vec_y (velocity (R m)) - 20 * frameTime (f m)) * frameTime (f m)"
      unfolding RS by (rule fall_step_airborne(2) [OF airall [of m] a])
    have e: "A * real (Suc m) = A * real m + A" by (simp add: algebra_simps)
    have "vec_y (velocity (R (Suc m))) \<le> 0"
      unfolding st1 using Suc.IH pos_dt [of m] by linarith
    moreover have "vec_y (position (R (Suc m))) \<le> vec_y (position q) - A * real (Suc m)"
      unfolding st2 e using Suc.IH drop [of "vec_y (velocity (R m))" m] by linarith
    ultimately show ?case by blast
  qed
  obtain m where m: "(vec_y (position q) - height q) / A < real m"
    using reals_Archimedean2 by blast
  with A have "vec_y (position q) - height q < real m * A"
    by (simp only: pos_divide_less_eq)
  then have "vec_y (position q) - height q < A * real m"
    by (simp only: mult.commute)
  with inv [of m] have y: "vec_y (position (R m)) - height q \<le> 0"
    by linarith
  have v1: "vec_y (velocity (R m)) - 20 * frameTime (f m) \<le> 0"
    using inv [of m] pos_dt [of m] by linarith
  have "(vec_y (velocity (R m)) - 20 * frameTime (f m)) * frameTime (f m) \<le> 0"
    using drop [of "vec_y (velocity (R m))" m] inv [of m] A by linarith
  with y have c1: "vec_y (position (R m))
        + (vec_y (velocity (R m)) - 20 * frameTime (f m)) * frameTime (f m) - height (R m) \<le> 0.05"
    unfolding Rh by simp
  have c2: "vec_y (velocity (R m)) - 20 * frameTime (f m) \<le> 0.01"
    using v1 by simp
  have "isGrounded (R (Suc m))"
    unfolding RS by (rule fall_step_lands [OF airall [of m] c1 c2])
  with air show False by blast
qed

lemma airborne_player_lands:
  assumes ng: "\<not> isGrounded p" and d: "0 < d" and dt: "\<And>k. d \<le> frameTime (f k)"
  shows "\<exists>m. isGrounded (walkRun p ms s [] (map f [0..<Suc m]))"
proof (rule ccontr)
  define R where "R k = walkRun p ms s [] (map f [0..<k])" for k
  assume "\<not> ?thesis"
  then have air: "\<not> isGrounded (R (Suc m))" for m unfolding R_def by blast
  have R0: "R 0 = p" by (simp add: R_def)
  have RS: "R (Suc m) = UpdateWalkingMode (R m) ms s [] (f m)" for m
    unfolding R_def by (rule walkRun_Suc)
  have airall: "\<not> isGrounded (R m)" for m
    using ng air R0 by (cases m) simp_all
  have vel: "vec_y (velocity (R k)) \<le> vec_y (velocity p) - (20 * d) * real k" for k
  proof (induction k)
    case 0
    then show ?case by (simp add: R0)
  next
    case (Suc k)
    have a: "\<not> isGrounded (UpdateWalkingMode (R k) ms s [] (f k))"
      using air [of k] unfolding RS .
    have st: "vec_y (velocity (R (Suc k))) = vec_y (velocity (R k)) - 20 * frameTime (f k)"
      unfolding RS by (rule fall_step_airborne(1) [OF airall [of k] a])
    have e: "(20 * d) * real (Suc k) = (20 * d) * real k + 20 * d" by (simp add: algebra_simps)
    show ?case unfolding st e using Suc.IH dt [of k] by linarith
  qed
  obtain K where K: "vec_y (velocity p) / (20 * d) < real K"
    using reals_Archimedean2 by blast
  have "0 < 20 * d" using d by simp
  with K have "vec_y (velocity p) < real K * (20 * d)"
    by (simp only: pos_divide_less_eq)
  then have "vec_y (velocity p) < (20 * d) * real K"
    by (simp only: mult.commute)
  with vel [of K] have v0: "vec_y (velocity (R K)) \<le> 0"
    by linarith
  obtain m where "isGrounded (walkRun (R K) ms s [] (map (\<lambda>j. f (K + j)) [0..<Suc m]))"
    using falling_player_lands [OF airall [of K] v0 d, of "\<lambda>j. f (K + j)" ms s] dt by blast
  then have "isGrounded (R (K + Suc m))"
    unfolding R_def by (simp only: walkRun_add)
  then show False using air [of "K + m"] by simp
qed

subsection \<open>Approaching the centre cube\<close>

lemma walkMoveDir_back:
  assumes "yaw p = 0" "keyS inp" "\<not> keyW inp" "\<not> keyA inp" "\<not> keyD inp"
  shows "walkMoveDir p inp = vec3 (- 1) 0 0"
  using assms
  by (simp add: walkMoveDir_def GetFlatForwardDirection_def Vector3Normalize_def
      Vector3Length_def Vector3Subtract_def Let_def)

lemma cube_bounds [simp]:
  "vec_x (box_position centerCube) = 0" "vec_y (box_position centerCube) = 1"
  "vec_z (box_position centerCube) = 0" "vec_x (box_size centerCube) = 2"
  "vec_y (box_size centerCube) = 2" "vec_z (box_size centerCube) = 2"
  by (simp_all add: centerCube_def)

subsection \<open>Rounding to binary32\<close>

lemma float32_binade:
  assumes "2 powi e \<le> \<bar>x\<bar>" and "\<bar>x\<bar> < 2 powi (e + 1)"
  shows "float32 x = roundAt e x"
proof -
  have p: "(0::real) < 2 powi e" by simp
  with assms have x: "0 < \<bar>x\<bar>" by linarith
  have pw: "(2::real) powr (of_int k) = 2 powi k" for k
    by (rule powr_real_of_int') simp_all
  have "(2::real) powr (of_int e) \<le> \<bar>x\<bar>" "\<bar>x\<bar> < 2 powr (of_int e + 1)"
    using assms pw [of e] pw [of "e + 1"] by simp_all
  then have "\<lfloor>log 2 \<bar>x\<bar>\<rfloor> = e"
    using x by (simp add: floor_log_eq_powr_iff)
  with x show ?thesis by (simp add: float32_def)
qed

lemma roundTiesEven_error: "\<bar>of_int (roundTiesEven v) - v\<bar> \<le> 1 / 2"
proof -
  have "of_int \<lfloor>v\<rfloor> \<le> v" "v < of_int \<lfloor>v\<rfloor> + 1" by linarith+
  then show ?thesis by (auto simp: roundTiesEven_def Let_def)
qed

lemma float32_error: "\<bar>float32 x - x\<bar> \<le> \<bar>x\<bar> / 2 ^ 24"
proof (cases "x = 0")
  case True
  then show ?thesis by (simp add: float32_def)
next
  case False
  define e where "e = \<lfloor>log 2 \<bar>x\<bar>\<rfloor>"
  define q :: real where "q = 2 powi (e - 23)"
  have q: "0 < q" by (simp add: q_def)
  have x: "0 < \<bar>x\<bar>" using False by simp
  have "2 powr (of_int e) \<le> \<bar>x\<bar>"
    using floor_log_eq_powr_iff [of "\<bar>x\<bar>" 2 e] x by (simp add: e_def)
  moreover have "(2::real) powr (of_int e) = q * 2 ^ 23"
  proof -
    have "(2::real) powr (of_int e) = 2 powi e"
      by (rule powr_real_of_int') simp_all
    also have "\<dots> = 2 powi ((e - 23) + 23)" by simp
    also have "\<dots> = 2 powi (e - 23) * 2 powi 23"
      by (rule power_int_add) simp
    finally show ?thesis by (simp add: q_def)
  qed
  ultimately have lo: "q * 2 ^ 23 \<le> \<bar>x\<bar>" by simp
  have "float32 x - x = (of_int (roundTiesEven (x / q)) - x / q) * q"
    using False q by (simp add: float32_def roundAt_def e_def q_def algebra_simps)
  then have "\<bar>float32 x - x\<bar> = \<bar>of_int (roundTiesEven (x / q)) - x / q\<bar> * q"
    using q by (simp add: abs_mult)
  also have "\<dots> \<le> (1 / 2) * q"
    using roundTiesEven_error [of "x / q"] q by (intro mult_right_mono) simp_all
  also have "\<dots> \<le> \<bar>x\<bar> / 2 ^ 24" using lo by simp
  finally show ?thesis .
qed

lemma float32_0 [simp]: "float32 0 = 0"
  by (simp add: float32_def)

lemma float32_range:
  assumes "1 / 128 \<le> \<bar>x\<bar>" and "\<bar>x\<bar> < 16"
  shows "float32 x =
     (if \<bar>x\<bar> < 1 / 64 then roundAt (- 7) x
      else if \<bar>x\<bar> < 1 / 32 then roundAt (- 6) x
      else if \<bar>x\<bar> < 1 / 16 then roundAt (- 5) x
      else if \<bar>x\<bar> < 1 / 8 then roundAt (- 4) x
      else if \<bar>x\<bar> < 1 / 4 then roundAt (- 3) x
      else if \<bar>x\<bar> < 1 / 2 then roundAt (- 2) x
      else if \<bar>x\<bar> < 1 then roundAt (- 1) x
      else if \<bar>x\<bar> < 2 then roundAt 0 x
      else if \<bar>x\<bar> < 4 then roundAt 1 x
      else if \<bar>x\<bar> < 8 then roundAt 2 x
      else roundAt 3 x)"
  using assms
    float32_binade [of "- 7" x] float32_binade [of "- 6" x]
    float32_binade [of "- 5" x] float32_binade [of "- 4" x] float32_binade [of "- 3" x]
    float32_binade [of "- 2" x] float32_binade [of "- 1" x] float32_binade [of 0 x]
    float32_binade [of 1 x] float32_binade [of 2 x] float32_binade [of 3 x]
  by (simp split: if_splits)

lemma float32_nonneg:
  assumes "0 \<le> v"
  shows "0 \<le> float32 v"
proof -
  have "\<bar>float32 v - v\<bar> \<le> v / 2 ^ 24"
    using float32_error [of v] assms by simp
  moreover have "v / 2 ^ 24 \<le> v" using assms by (simp add: field_simps)
  ultimately show ?thesis by linarith
qed

lemma float32_near:
  assumes "\<bar>v\<bar> \<le> 16"
  shows "\<bar>float32 v - v\<bar> \<le> 1 / 1000000"
proof -
  have "\<bar>float32 v - v\<bar> \<le> \<bar>v\<bar> / 2 ^ 24" by (rule float32_error)
  also have "\<dots> \<le> 16 / 2 ^ 24" using assms by (simp add: divide_right_mono)
  also have "\<dots> \<le> 1 / 1000000" by simp
  finally show ?thesis .
qed

lemma GetBoxBounds32_centerCube:
  "GetBoxBounds32 centerCube = \<lparr>bb_min = vec3 (- 1) 0 (- 1), bb_max = vec3 1 2 1\<rparr>"
  by (simp add: GetBoxBounds32_def centerCube_def float32_range roundAt_def roundTiesEven_def)

lemma float32_below_minus_one:
  assumes "float32 v \<le> - 1"
  shows "v \<le> - 1 + 1 / 1000000"
proof (rule ccontr)
  assume n: "\<not> v \<le> - 1 + 1 / 1000000"
  show False
  proof (cases "0 \<le> v")
    case True
    then show False using float32_nonneg [of v] assms by linarith
  next
    case False
    with n have "\<bar>v\<bar> \<le> 16" by simp
    then show False using float32_near [of v] n assms by linarith
  qed
qed

lemma float32_above_one:
  assumes "1 \<le> float32 v"
  shows "1 - 1 / 1000000 \<le> v"
proof -
  have "float32 (- (- v)) = float32 v" by simp
  show ?thesis
  proof (rule ccontr)
    assume n: "\<not> 1 - 1 / 1000000 \<le> v"
    show False
    proof (cases "v \<le> 0")
      case True
      have "\<bar>float32 v - v\<bar> \<le> \<bar>v\<bar> / 2 ^ 24" by (rule float32_error)
      moreover have "\<bar>v\<bar> / 2 ^ 24 \<le> \<bar>v\<bar>" by (simp add: field_simps)
      ultimately show False using True assms by linarith
    next
      case False
      with n have "\<bar>v\<bar> \<le> 16" by simp
      then show False using float32_near [of v] n assms by linarith
    qed
  qed
qed

lemma float32_at_least_one:
  assumes "1 + 1 / 1000000 \<le> v"
  shows "1 \<le> float32 v"
proof -
  have e: "\<bar>float32 v - v\<bar> \<le> \<bar>v\<bar> / 2 ^ 24" by (rule float32_error)
  have a: "\<bar>v\<bar> = v" using assms by simp
  have "v / 2 ^ 24 \<le> v / 10000000"
    using assms by (intro divide_left_mono) simp_all
  moreover have "v - v / 10000000 \<ge> 1"
    using assms by (simp add: field_simps)
  ultimately show ?thesis using e unfolding a by linarith
qed

lemma horizontalCollisions32_centerCube:
  assumes r: "0 < r" "r \<le> 4"
    and xz: "\<bar>vec_z pos\<bar> + candidateMargin \<le> vec_x pos"
    and band: "float32 (vec_y pos - h) < float32 (2 - float32 0.1)" "0 \<le> vec_y pos"
  shows "1 + r - pushTolerance \<le> vec_x (horizontalCollisions32 pos r h [centerCube])"
    and "vec_z (horizontalCollisions32 pos r h [centerCube]) = vec_z pos"
    and "vec_y (horizontalCollisions32 pos r h [centerCube]) = vec_y pos"
proof -
  define x where "x = vec_x pos"
  define z where "z = vec_z pos"
  define a1 where "a1 = float32 (x + r)"
  define a2 where "a2 = float32 (x - r)"
  define b1 where "b1 = float32 (z + r)"
  define b2 where "b2 = float32 (z - r)"
  define X1 where "X1 = float32 (a1 - (- 1))"
  define X2 where "X2 = float32 (1 - a2)"
  define Z1 where "Z1 = float32 (b1 - (- 1))"
  define Z2 where "Z2 = float32 (1 - b2)"
  define mX where "mX = (if X1 < X2 then - X1 else X2)"
  define mZ where "mZ = (if Z1 < Z2 then - Z1 else Z2)"
  have m: "\<bar>z\<bar> + 1 / 50000 \<le> x"
    using xz by (simp add: x_def z_def candidateMargin_def)
  have ov: "horizontalOverlap32 pos r (GetBoxBounds32 centerCube)
      \<longleftrightarrow> a1 > - 1 \<and> a2 < 1 \<and> b1 > - 1 \<and> b2 < 1"
    by (simp add: horizontalOverlap32_def GetBoxBounds32_centerCube a1_def a2_def b1_def
        b2_def x_def z_def)
  have sa: "ShouldApplyHorizontalCollision32 pos r h centerCube
      \<longleftrightarrow> a1 > - 1 \<and> a2 < 1 \<and> b1 > - 1 \<and> b2 < 1"
    using band ov
    by (simp add: ShouldApplyHorizontalCollision32_def Let_def GetBoxBounds32_centerCube)
  have res: "ResolveCollision32 pos r h centerCube =
      (if \<bar>mX\<bar> < \<bar>mZ\<bar> then pos\<lparr>vec_x := float32 (x + mX)\<rparr>
       else pos\<lparr>vec_z := float32 (z + mZ)\<rparr>)"
    by (simp add: ResolveCollision32_def Let_def GetBoxBounds32_centerCube mX_def mZ_def
        X1_def X2_def Z1_def Z2_def a1_def a2_def b1_def b2_def x_def z_def)
  show "1 + r - pushTolerance \<le> vec_x (horizontalCollisions32 pos r h [centerCube])"
    and "vec_z (horizontalCollisions32 pos r h [centerCube]) = vec_z pos"
    and "vec_y (horizontalCollisions32 pos r h [centerCube]) = vec_y pos"
  proof -
    have "1 + r - pushTolerance \<le> vec_x (horizontalCollisions32 pos r h [centerCube])
      \<and> vec_z (horizontalCollisions32 pos r h [centerCube]) = vec_z pos
      \<and> vec_y (horizontalCollisions32 pos r h [centerCube]) = vec_y pos"
    proof (cases "a1 > - 1 \<and> a2 < 1 \<and> b1 > - 1 \<and> b2 < 1")
      case False
      then have "\<not> ShouldApplyHorizontalCollision32 pos r h centerCube"
        using sa by blast
      then have same: "horizontalCollisions32 pos r h [centerCube] = pos"
        by simp
      have "0 \<le> a1"
        unfolding a1_def using m r by (intro float32_nonneg) linarith
      with False consider "1 \<le> a2" | "b1 \<le> - 1" | "1 \<le> b2" by linarith
      then have "1 + r - 1 / 100000 \<le> x"
      proof cases
        case 1
        then show ?thesis using float32_above_one [of "x - r"] by (simp add: a2_def)
      next
        case 2
        then show ?thesis using float32_below_minus_one [of "z + r"] m by (simp add: b1_def)
      next
        case 3
        then show ?thesis using float32_above_one [of "z - r"] m by (simp add: b2_def)
      qed
      then show ?thesis unfolding same by (simp add: pushTolerance_def x_def)
    next
      case True
      then have t: "a1 > - 1" "a2 < 1" "b1 > - 1" "b2 < 1" by simp_all
      have x0: "0 < x" using m by linarith
      have xr: "x - r < 1 + 1 / 1000000"
      proof (rule ccontr)
        assume "\<not> x - r < 1 + 1 / 1000000"
        then have "1 + 1 / 1000000 \<le> x - r" by simp
        from float32_at_least_one [OF this] t(2) show False by (simp add: a2_def)
      qed
      have xb: "x \<le> 6" using xr r by linarith
      have zb: "\<bar>z\<bar> \<le> 6" using m xb by linarith
      have e_a1: "\<bar>a1 - (x + r)\<bar> \<le> 1 / 1000000"
        unfolding a1_def using xb x0 r by (intro float32_near) simp
      have e_a2: "\<bar>a2 - (x - r)\<bar> \<le> 1 / 1000000"
        unfolding a2_def using xb x0 r by (intro float32_near) simp
      have e_b1: "\<bar>b1 - (z + r)\<bar> \<le> 1 / 1000000"
        unfolding b1_def using zb r by (intro float32_near) simp
      have e_b2: "\<bar>b2 - (z - r)\<bar> \<le> 1 / 1000000"
        unfolding b2_def using zb r by (intro float32_near) simp
      have e_X1: "\<bar>X1 - (a1 + 1)\<bar> \<le> 1 / 1000000"
      proof -
        have "\<bar>a1 - (- 1)\<bar> \<le> 16" using e_a1 xb x0 r by linarith
        from float32_near [OF this] show ?thesis by (simp add: X1_def)
      qed
      have e_X2: "\<bar>X2 - (1 - a2)\<bar> \<le> 1 / 1000000"
      proof -
        have "\<bar>1 - a2\<bar> \<le> 16" using e_a2 xb x0 r by linarith
        from float32_near [OF this] show ?thesis by (simp add: X2_def)
      qed
      have e_Z1: "\<bar>Z1 - (b1 + 1)\<bar> \<le> 1 / 1000000"
      proof -
        have "\<bar>b1 - (- 1)\<bar> \<le> 16" using e_b1 zb r by linarith
        from float32_near [OF this] show ?thesis by (simp add: Z1_def)
      qed
      have e_Z2: "\<bar>Z2 - (1 - b2)\<bar> \<le> 1 / 1000000"
      proof -
        have "\<bar>1 - b2\<bar> \<le> 16" using e_b2 zb r by linarith
        from float32_near [OF this] show ?thesis by (simp add: Z2_def)
      qed
      have "\<not> X1 < X2" using e_X1 e_X2 e_a1 e_a2 m by linarith
      then have mX: "mX = X2" by (simp add: mX_def)
      have X2pos: "0 \<le> X2"
        unfolding X2_def using t(2) by (intro float32_nonneg) simp
      have Z1lo: "1 + r - \<bar>z\<bar> - 2 / 1000000 \<le> Z1" using e_Z1 e_b1 by linarith
      have Z2lo: "1 + r - \<bar>z\<bar> - 2 / 1000000 \<le> Z2" using e_Z2 e_b2 by linarith
      have zlim: "0 < 1 + r - \<bar>z\<bar> - 2 / 1000000" using m xr by linarith
      have mZ: "1 + r - \<bar>z\<bar> - 2 / 1000000 \<le> \<bar>mZ\<bar>"
        using Z1lo Z2lo zlim by (simp add: mZ_def)
      have "\<bar>mX\<bar> < \<bar>mZ\<bar>"
        using mX X2pos mZ e_X2 e_a2 m by linarith
      then have out: "ResolveCollision32 pos r h centerCube = pos\<lparr>vec_x := float32 (x + X2)\<rparr>"
        by (simp add: res mX)
      have sum: "\<bar>(x + X2) - (1 + r)\<bar> \<le> 2 / 1000000" using e_X2 e_a2 by linarith
      then have "\<bar>x + X2\<bar> \<le> 16" using r by linarith
      then have "\<bar>float32 (x + X2) - (x + X2)\<bar> \<le> 1 / 1000000" by (rule float32_near)
      with sum have "1 + r - 1 / 100000 \<le> float32 (x + X2)" by linarith
      then have lo: "1 + r - pushTolerance \<le> float32 (x + X2)"
        by (simp add: pushTolerance_def)
      have "ShouldApplyHorizontalCollision32 pos r h centerCube"
        using sa True by blast
      then have "horizontalCollisions32 pos r h [centerCube] = pos\<lparr>vec_x := float32 (x + X2)\<rparr>"
        using out by simp
      then show ?thesis using lo by simp
    qed
    then show "1 + r - pushTolerance \<le> vec_x (horizontalCollisions32 pos r h [centerCube])"
      and "vec_z (horizontalCollisions32 pos r h [centerCube]) = vec_z pos"
      and "vec_y (horizontalCollisions32 pos r h [centerCube]) = vec_y pos"
      by simp_all
  qed
qed

lemma float32_nonpos:
  assumes "v \<le> 0"
  shows "float32 v \<le> 0"
proof -
  have "\<bar>float32 v - v\<bar> \<le> - v / 2 ^ 24"
    using float32_error [of v] assms by simp
  moreover have "- v / 2 ^ 24 \<le> - v" using assms by (simp add: field_simps)
  ultimately show ?thesis by linarith
qed

lemma roundTiesEven_mono:
  assumes "v \<le> w"
  shows "roundTiesEven v \<le> roundTiesEven w"
proof -
  have fl: "\<lfloor>v\<rfloor> \<le> \<lfloor>w\<rfloor>" using assms by (rule floor_mono)
  have bv: "roundTiesEven v \<le> \<lfloor>v\<rfloor> + 1" and bw: "\<lfloor>w\<rfloor> \<le> roundTiesEven w"
    by (simp_all add: roundTiesEven_def Let_def)
  show ?thesis
  proof (cases "\<lfloor>v\<rfloor> = \<lfloor>w\<rfloor>")
    case True
    then show ?thesis using assms by (auto simp: roundTiesEven_def Let_def)
  next
    case False
    with fl have "\<lfloor>v\<rfloor> + 1 \<le> \<lfloor>w\<rfloor>" by simp
    with bv bw show ?thesis by linarith
  qed
qed

lemma roundTiesEven_of_int [simp]: "roundTiesEven (of_int n) = n"
  by (simp add: roundTiesEven_def)

lemma binade_bounds:
  assumes "0 < x"
  shows "2 powi \<lfloor>log 2 x\<rfloor> \<le> x" and "x < 2 powi (\<lfloor>log 2 x\<rfloor> + 1)"
proof -
  have pw: "(2::real) powr (of_int k) = 2 powi k" for k
    by (rule powr_real_of_int') simp_all
  have "2 powr (of_int \<lfloor>log 2 x\<rfloor>) \<le> x \<and> x < 2 powr (of_int \<lfloor>log 2 x\<rfloor> + 1)"
    using floor_log_eq_powr_iff [of x 2 "\<lfloor>log 2 x\<rfloor>"] assms by simp
  then show "2 powi \<lfloor>log 2 x\<rfloor> \<le> x" and "x < 2 powi (\<lfloor>log 2 x\<rfloor> + 1)"
    using pw [of "\<lfloor>log 2 x\<rfloor>"] pw [of "\<lfloor>log 2 x\<rfloor> + 1"] by simp_all
qed

lemma powi_split:
  "(2::real) powi e = 8388608 * 2 powi (e - 23)"
  "(2::real) powi (e + 1) = 16777216 * 2 powi (e - 23)"
proof -
  have "(2::real) powi e = 2 powi (23 + (e - 23))" by simp
  also have "\<dots> = 2 powi 23 * 2 powi (e - 23)" by (rule power_int_add) simp
  finally show "(2::real) powi e = 8388608 * 2 powi (e - 23)" by simp
  have "e + 1 = 24 + (e - 23)" by simp
  then have "(2::real) powi (e + 1) = 2 powi (24 + (e - 23))" by (rule arg_cong)
  also have "\<dots> = 2 powi 24 * 2 powi (e - 23)" by (rule power_int_add) simp
  finally show "(2::real) powi (e + 1) = 16777216 * 2 powi (e - 23)" by simp
qed

lemma roundAt_mono:
  assumes "x \<le> y"
  shows "roundAt e x \<le> roundAt e y"
proof -
  have q: "(0::real) < 2 powi (e - 23)" by simp
  then have "x / 2 powi (e - 23) \<le> y / 2 powi (e - 23)"
    using assms by (simp add: divide_right_mono)
  then have "roundTiesEven (x / 2 powi (e - 23)) \<le> roundTiesEven (y / 2 powi (e - 23))"
    by (rule roundTiesEven_mono)
  then show ?thesis
    unfolding roundAt_def using q by (intro mult_right_mono) simp_all
qed

lemma roundAt_grid: "roundAt e (of_int n * 2 powi (e - 23)) = of_int n * 2 powi (e - 23)"
  by (simp add: roundAt_def)

lemma roundAt_bounds:
  assumes "2 powi e \<le> x" and "x \<le> 2 powi (e + 1)"
  shows "2 powi e \<le> roundAt e x" and "roundAt e x \<le> 2 powi (e + 1)"
proof -
  have "roundAt e (8388608 * 2 powi (e - 23)) = 8388608 * 2 powi (e - 23)"
    using roundAt_grid [of e 8388608] by simp
  then have lo: "roundAt e (2 powi e) = 2 powi e"
    unfolding powi_split(1) [symmetric] .
  have "roundAt e (16777216 * 2 powi (e - 23)) = 16777216 * 2 powi (e - 23)"
    using roundAt_grid [of e 16777216] by simp
  then have hi: "roundAt e (2 powi (e + 1)) = 2 powi (e + 1)"
    unfolding powi_split(2) [symmetric] .
  show "2 powi e \<le> roundAt e x"
    using roundAt_mono [OF assms(1), of e] lo by simp
  show "roundAt e x \<le> 2 powi (e + 1)"
    using roundAt_mono [OF assms(2), of e] hi by simp
qed

lemma float32_pos: "0 < x \<Longrightarrow> float32 x = roundAt \<lfloor>log 2 x\<rfloor> x"
  by (simp add: float32_def)

lemma float32_mono_pos:
  assumes "0 < x" and "x \<le> y"
  shows "float32 x \<le> float32 y"
proof -
  define ex where "ex = \<lfloor>log 2 x\<rfloor>"
  define ey where "ey = \<lfloor>log 2 y\<rfloor>"
  have y: "0 < y" using assms by linarith
  have fx: "float32 x = roundAt ex x" and fy: "float32 y = roundAt ey y"
    using assms y by (simp_all add: float32_pos ex_def ey_def)
  have le: "ex \<le> ey"
    unfolding ex_def ey_def using assms by (intro floor_mono log_mono) simp_all
  show ?thesis
  proof (cases "ex = ey")
    case True
    then show ?thesis unfolding fx fy using assms(2) by (simp add: roundAt_mono)
  next
    case False
    with le have lt: "ex + 1 \<le> ey" by simp
    have "roundAt ex x \<le> 2 powi (ex + 1)"
      using binade_bounds [OF assms(1)] by (intro roundAt_bounds(2)) (simp_all add: ex_def)
    also have "\<dots> \<le> 2 powi ey"
      using lt by (intro power_int_increasing) simp_all
    also have "\<dots> \<le> roundAt ey y"
      using binade_bounds [OF y] by (intro roundAt_bounds(1)) (simp_all add: ey_def)
    finally show ?thesis unfolding fx fy .
  qed
qed

lemma float32_grid:
  assumes "8388608 \<le> n" and "n < 16777216"
  shows "float32 (of_int n * 2 powi k) = of_int n * 2 powi k"
proof -
  have q: "(0::real) < 2 powi k" by simp
  have n0: "(0::real) \<le> of_int n" using assms(1) by simp
  have ab: "\<bar>of_int n * 2 powi k\<bar> = of_int n * (2::real) powi k"
    using n0 by (simp add: abs_mult)
  have "(2::real) powi (k + 23) = 8388608 * 2 powi k"
    using powi_split(1) [of "k + 23"] by simp
  also have "\<dots> \<le> of_int n * 2 powi k"
    using assms(1) q by (intro mult_right_mono) simp_all
  finally have a: "(2::real) powi (k + 23) \<le> \<bar>of_int n * 2 powi k\<bar>"
    unfolding ab .
  have "of_int n * (2::real) powi k < 16777216 * 2 powi k"
    using assms(2) q by (intro mult_strict_right_mono) simp_all
  also have "\<dots> = 2 powi (k + 23 + 1)"
    using powi_split(2) [of "k + 23"] by simp
  finally have b: "\<bar>of_int n * 2 powi k\<bar> < (2::real) powi (k + 23 + 1)"
    unfolding ab .
  have "float32 (of_int n * 2 powi k) = roundAt (k + 23) (of_int n * 2 powi k)"
    using a b by (rule float32_binade)
  also have "\<dots> = of_int n * 2 powi k"
    using roundAt_grid [of "k + 23" n] by simp
  finally show ?thesis .
qed

lemma float32_idem_pos:
  assumes "0 < x"
  shows "float32 (float32 x) = float32 x"
proof -
  define e where "e = \<lfloor>log 2 x\<rfloor>"
  define n where "n = roundTiesEven (x / 2 powi (e - 23))"
  have q: "(0::real) < 2 powi (e - 23)" by simp
  have fx: "float32 x = of_int n * 2 powi (e - 23)"
    using assms by (simp add: float32_pos roundAt_def e_def n_def)
  have bl: "2 powi e \<le> x" and bu: "x \<le> 2 powi (e + 1)"
    using binade_bounds [OF assms] by (simp_all add: e_def)
  have ra: "roundAt e x = of_int n * 2 powi (e - 23)"
    by (simp add: roundAt_def n_def)
  have "8388608 * 2 powi (e - 23) \<le> real_of_int n * 2 powi (e - 23)"
    using roundAt_bounds(1) [OF bl bu] unfolding ra powi_split(1) [of e] .
  then have "(8388608::real) \<le> of_int n" using q by simp
  then have nl: "8388608 \<le> n" by linarith
  have "real_of_int n * 2 powi (e - 23) \<le> 16777216 * 2 powi (e - 23)"
    using roundAt_bounds(2) [OF bl bu] unfolding ra powi_split(2) [of e] .
  then have "of_int n \<le> (16777216::real)" using q by simp
  then have nu: "n \<le> 16777216" by linarith
  show ?thesis
  proof (cases "n = 16777216")
    case False
    with nu have "n < 16777216" by simp
    then show ?thesis unfolding fx using nl by (intro float32_grid)
  next
    case True
    have "(2::real) powi (e - 22) = 2 powi (1 + (e - 23))"
      by (rule arg_cong [where f = "power_int 2"]) simp
    also have "\<dots> = 2 powi 1 * 2 powi (e - 23)" by (rule power_int_add) simp
    finally have "real_of_int n * 2 powi (e - 23) = of_int 8388608 * 2 powi (e - 22)"
      using True by simp
    then show ?thesis unfolding fx using float32_grid [of 8388608 "e - 22"] by simp
  qed
qed

lemma float32_below_fixed:
  assumes "w \<le> y" and "0 \<le> y" and "float32 y = y"
  shows "float32 w \<le> y"
proof (cases "0 < w")
  case True
  then show ?thesis using float32_mono_pos [OF True assms(1)] assms(3) by simp
next
  case False
  then have "float32 w \<le> 0" by (intro float32_nonpos) simp
  with assms(2) show ?thesis by linarith
qed

subsection \<open>The approach in binary32\<close>

lemma UpdateCameraLook32_fields [simp]:
  "position (UpdateCameraLook32 p s inp) = position p"
  "velocity (UpdateCameraLook32 p s inp) = velocity p"
  "height (UpdateCameraLook32 p s inp) = height p"
  "radius (UpdateCameraLook32 p s inp) = radius p"
  "isGrounded (UpdateCameraLook32 p s inp) = isGrounded p"
  by (simp_all add: UpdateCameraLook32_def Let_def)

lemma walkVelocity32_fields [simp]:
  "position (walkVelocity32 p d ms inp) = position p"
  "height (walkVelocity32 p d ms inp) = height p"
  "radius (walkVelocity32 p d ms inp) = radius p"
  by (simp_all add: walkVelocity32_def Let_def)

lemma walkVelocity32_xz:
  "vec_x (velocity (walkVelocity32 p d ms inp))
     = float32 (vec_x d * (if keyLeftControl inp then float32 (ms * 2) else ms))"
  "vec_z (velocity (walkVelocity32 p d ms inp))
     = float32 (vec_z d * (if keyLeftControl inp then float32 (ms * 2) else ms))"
  by (simp_all add: walkVelocity32_def Let_def)

lemma walkVelocity32_y_no_jump:
  assumes "\<not> pressedSpace inp"
  shows "vec_y (velocity (walkVelocity32 p d ms inp))
     = (if isGrounded p then vec_y (velocity p)
        else float32 (vec_y (velocity p) - float32 (GRAVITY * frameTime inp)))"
  using assms by (simp add: walkVelocity32_def Let_def)

lemma float32_abs_le: "\<bar>float32 v\<bar> \<le> \<bar>v\<bar> * (1 + 1 / 2 ^ 24)"
proof -
  have "\<bar>float32 v - v\<bar> \<le> \<bar>v\<bar> / 2 ^ 24" by (rule float32_error)
  then have "\<bar>float32 v\<bar> \<le> \<bar>v\<bar> + \<bar>v\<bar> / 2 ^ 24" by linarith
  then show ?thesis by (simp add: algebra_simps)
qed

lemma float32_step_bound:
  assumes S: "0 \<le> S" and dt: "0 \<le> dt" and s5: "S * dt \<le> 5"
    and dx: "\<bar>dx\<bar> \<le> 1" and sp: "\<bar>sp\<bar> \<le> S * (1 + 1 / 2 ^ 24)"
  shows "\<bar>float32 (float32 (dx * sp) * dt)\<bar> \<le> S * dt + 1 / 1000000"
proof -
  define k :: real where "k = 1 + 1 / 2 ^ 24"
  have k: "0 \<le> k" by (simp add: k_def)
  have sp': "\<bar>sp\<bar> \<le> S * k" using sp by (simp add: k_def)
  have "\<bar>dx * sp\<bar> = \<bar>dx\<bar> * \<bar>sp\<bar>" by (simp add: abs_mult)
  also have "\<dots> \<le> 1 * \<bar>sp\<bar>" using dx by (intro mult_right_mono) simp_all
  finally have a: "\<bar>dx * sp\<bar> \<le> S * k" using sp' by simp
  have "\<bar>float32 (dx * sp)\<bar> \<le> \<bar>dx * sp\<bar> * k"
    using float32_abs_le [of "dx * sp"] by (simp add: k_def)
  also have "\<dots> \<le> (S * k) * k" using a k by (intro mult_right_mono)
  finally have b: "\<bar>float32 (dx * sp)\<bar> \<le> S * k * k" .
  have "\<bar>float32 (dx * sp) * dt\<bar> = \<bar>float32 (dx * sp)\<bar> * dt"
    using dt by (simp add: abs_mult)
  also have "\<dots> \<le> (S * k * k) * dt" using b dt by (intro mult_right_mono)
  finally have c: "\<bar>float32 (dx * sp) * dt\<bar> \<le> S * k * k * dt" .
  have "\<bar>float32 (float32 (dx * sp) * dt)\<bar> \<le> \<bar>float32 (dx * sp) * dt\<bar> * k"
    using float32_abs_le [of "float32 (dx * sp) * dt"] by (simp add: k_def)
  also have "\<dots> \<le> (S * k * k * dt) * k" using c k by (intro mult_right_mono)
  also have "\<dots> = (S * dt) * (k * k * k)" by (simp add: algebra_simps)
  finally have d: "\<bar>float32 (float32 (dx * sp) * dt)\<bar> \<le> (S * dt) * (k * k * k)" .
  have k3: "k * k * k \<le> 1 + 1 / 5000000" by (simp add: k_def)
  have s0: "0 \<le> S * dt" using S dt by simp
  have "(S * dt) * (k * k * k) \<le> (S * dt) * (1 + 1 / 5000000)"
    using k3 s0 by (intro mult_left_mono)
  also have "\<dots> = S * dt + (S * dt) / 5000000" by (simp add: algebra_simps)
  also have "\<dots> \<le> S * dt + 1 / 1000000" using s5 by simp
  finally show ?thesis using d by linarith
qed

lemma float32_lower:
  assumes "0 \<le> v"
  shows "v - v / 2 ^ 24 \<le> float32 v"
proof -
  have "\<bar>float32 v - v\<bar> \<le> v / 2 ^ 24"
    using float32_error [of v] assms by simp
  then show ?thesis by linarith
qed

lemma float32_one [simp]: "float32 1 = 1"
  by (simp add: float32_range roundAt_def roundTiesEven_def)

lemma float32_literals:
  "1 < float32 (2 - float32 (1 / 10))"
  "float32 (2 - float32 (1 / 2)) = 3 / 2"
  by (simp_all add: float32_range roundAt_def roundTiesEven_def)

lemma float32_pos_arg:
  assumes "0 < float32 v"
  shows "0 < v"
  using float32_nonpos [of v] assms by (cases "v \<le> 0") simp_all

lemma float32_idem_nonneg:
  assumes "0 \<le> float32 x"
  shows "float32 (float32 x) = float32 x"
proof (cases "0 < float32 x")
  case True
  then have "0 < x" by (rule float32_pos_arg)
  then show ?thesis by (rule float32_idem_pos)
next
  case False
  with assms have "float32 x = 0" by simp
  then show ?thesis by simp
qed

lemma groundSearch32_centerCube:
  assumes "vec_y pos - h \<le> 1"
  shows "groundSearch32 pos r h v [centerCube]
     = (float32 (vec_y pos - h) \<le> float32 (GROUND_LEVEL + float32 0.05), GROUND_LEVEL)"
proof -
  have "float32 (vec_y pos - h) \<le> 1"
    using assms by (intro float32_below_fixed) simp_all
  then have "\<not> float32 (vec_y pos - h) \<ge> float32 (2 - float32 (1 / 2))"
    by (simp add: float32_literals)
  then show ?thesis
    by (simp add: groundSearch32_def GetBoxBounds32_centerCube Let_def)
qed

lemma UpdateWalkingMode32_eq:
  assumes "q = walkVelocity32 (UpdateCameraLook32 p s (snd frame)) (fst frame) ms (snd frame)"
    and "cand = (position q)
          \<lparr>vec_x := float32 (vec_x (position q) + float32 (vec_x (velocity q) * frameTime (snd frame))),
           vec_z := float32 (vec_z (position q) + float32 (vec_z (velocity q) * frameTime (snd frame)))\<rparr>"
    and "pos2 = horizontalCollisions32 cand (radius q) (height q) cs"
    and "pos3 = pos2\<lparr>vec_y := float32 (vec_y pos2 + float32 (vec_y (velocity q) * frameTime (snd frame)))\<rparr>"
    and "groundSearch32 pos3 (radius q) (height q) (vec_y (velocity q)) cs = (found, gy)"
  shows "UpdateWalkingMode32 p ms s cs frame
      = (if found \<and> vec_y (velocity q) \<le> float32 0.01
         then q\<lparr>velocity := (velocity q)\<lparr>vec_y := 0\<rparr>, isGrounded := True,
                position := pos3\<lparr>vec_y := float32 (gy + height q)\<rparr>\<rparr>
         else q\<lparr>isGrounded := False, position := pos3\<rparr>)"
  using assms(5) unfolding assms(1-4)
  by (simp add: UpdateWalkingMode32_def Let_def)

lemma approach32_step:
  assumes inv: "approachInv32 r h z p"
    and r: "0 < r" "r \<le> 4" and h: "0 \<le> h" "float32 h = h" and z: "float32 z = z"
    and ms: "0 \<le> ms"
    and fr: "approachFrame32 ms r z frame"
  shows "approachInv32 r h z (UpdateWalkingMode32 p ms s [centerCube] frame)"
proof -
  define dt where "dt = frameTime (snd frame)"
  define q where "q = walkVelocity32 (UpdateCameraLook32 p s (snd frame)) (fst frame) ms (snd frame)"
  define sp where "sp = (if keyLeftControl (snd frame) then float32 (ms * 2) else ms)"
  define S where "S = (if keyLeftControl (snd frame) then ms * 2 else ms)"
  define x where "x = vec_x (position p)"
  define y where "y = vec_y (position p)"
  define vy where "vy = vec_y (velocity q)"
  define w where "w = x + float32 (float32 (vec_x (fst frame) * sp) * dt)"
  define cand where "cand = (position p)\<lparr>vec_x := float32 w, vec_z := z\<rparr>"
  define pos2 where "pos2 = horizontalCollisions32 cand r h [centerCube]"
  define newY where "newY = float32 (y + float32 (vy * dt))"
  define pos3 where "pos3 = pos2\<lparr>vec_y := newY\<rparr>"
  define found where "found \<longleftrightarrow> float32 (newY - h) \<le> float32 (GROUND_LEVEL + float32 0.05)"
  have ip: "radius p = r" "height p = h" "vec_z (position p) = z" "1 + r - pushTolerance \<le> x"
      "0 \<le> y" "float32 y = y" "y - h \<le> 1" "vec_y (velocity p) \<le> 0"
    using inv by (simp_all add: approachInv32_def x_def y_def)
  have f: "\<bar>vec_x (fst frame)\<bar> \<le> 1" "vec_z (fst frame) = 0" "\<not> pressedSpace (snd frame)"
      "0 \<le> dt" "S * dt \<le> 1 + r - \<bar>z\<bar> - stepMargin"
    using fr by (simp_all add: approachFrame32_def dt_def S_def)
  have qf: "radius q = r" "height q = h" "position q = position p"
    by (simp_all add: q_def ip)
  have qx: "vec_x (velocity q) = float32 (vec_x (fst frame) * sp)"
    by (simp add: q_def sp_def walkVelocity32_xz)
  have qz: "vec_z (velocity q) = 0"
    by (simp add: q_def walkVelocity32_xz f)
  have vy_eq: "vy = (if isGrounded p then vec_y (velocity p)
        else float32 (vec_y (velocity p) - float32 (GRAVITY * dt)))"
    using f(3) by (simp add: vy_def q_def dt_def walkVelocity32_y_no_jump)
  have vy: "vy \<le> 0"
  proof (cases "isGrounded p")
    case True
    then show ?thesis using vy_eq ip(8) by simp
  next
    case False
    have "0 \<le> float32 (GRAVITY * dt)"
      using f(4) by (intro float32_nonneg) (simp add: GRAVITY_def)
    then have "float32 (vec_y (velocity p) - float32 (GRAVITY * dt)) \<le> 0"
      using ip(8) by (intro float32_nonpos) linarith
    then show ?thesis using vy_eq False by simp
  qed
  have S0: "0 \<le> S" using ms by (simp add: S_def)
  have S5: "S * dt \<le> 5" using f(5) r(2) by (simp add: stepMargin_def)
  have spb: "\<bar>sp\<bar> \<le> S * (1 + 1 / 2 ^ 24)"
  proof (cases "keyLeftControl (snd frame)")
    case True
    then show ?thesis
      using float32_abs_le [of "ms * 2"] ms by (simp add: sp_def S_def)
  next
    case False
    have "ms \<le> ms * (1 + 1 / 2 ^ 24)" using ms by (simp add: algebra_simps)
    then show ?thesis using False ms by (simp add: sp_def S_def)
  qed
  have db: "\<bar>float32 (float32 (vec_x (fst frame) * sp) * dt)\<bar> \<le> S * dt + 1 / 1000000"
    using S0 f(4) S5 f(1) spb by (rule float32_step_bound)
  define L where "L = \<bar>z\<bar> + 89 / 1000000"
  have wL: "L \<le> w"
    using db ip(4) f(5) by (simp add: w_def L_def stepMargin_def pushTolerance_def)
  have L0: "0 \<le> L" by (simp add: L_def)
  have zb: "\<bar>z\<bar> \<le> 5"
  proof -
    have "0 \<le> S * dt" using S0 f(4) by simp
    then show ?thesis using f(5) r(2) by (simp add: stepMargin_def)
  qed
  have "L / 2 ^ 24 \<le> 6 / 2 ^ 24"
    using zb by (intro divide_right_mono) (simp_all add: L_def)
  then have Lc: "L / 2 ^ 24 \<le> 1 / 1000000" by simp
  have "L * (1 - 1 / 2 ^ 24) \<le> w * (1 - 1 / 2 ^ 24)"
    using wL by (intro mult_right_mono) simp_all
  then have "L - L / 2 ^ 24 \<le> w - w / 2 ^ 24" by (simp add: algebra_simps)
  moreover have "w - w / 2 ^ 24 \<le> float32 w"
    using wL L0 by (intro float32_lower) linarith
  ultimately have "L - 1 / 1000000 \<le> float32 w"
    using Lc by linarith
  then have cx: "\<bar>z\<bar> + candidateMargin \<le> float32 w"
    by (simp add: L_def candidateMargin_def)
  have cand_sel: "vec_x cand = float32 w" "vec_y cand = y" "vec_z cand = z"
    by (simp_all add: cand_def y_def)
  have "float32 (y - h) \<le> 1"
    using ip(7) by (intro float32_below_fixed) simp_all
  then have band: "float32 (vec_y cand - h) < float32 (2 - float32 0.1)"
    using float32_literals(1) by (simp add: cand_sel)
  have xz: "\<bar>vec_z cand\<bar> + candidateMargin \<le> vec_x cand"
    using cx by (simp add: cand_sel)
  have y0: "0 \<le> vec_y cand" using ip(5) by (simp add: cand_sel)
  have p2: "1 + r - pushTolerance \<le> vec_x pos2" "vec_z pos2 = z" "vec_y pos2 = y"
    using horizontalCollisions32_centerCube [OF r xz band y0]
    by (simp_all add: pos2_def cand_sel)
  have d0: "float32 (vy * dt) \<le> 0"
    using vy f(4) by (intro float32_nonpos) (simp add: mult_nonpos_nonneg)
  have newY_le: "newY \<le> y"
    unfolding newY_def using d0 ip(5,6) by (intro float32_below_fixed) simp_all
  have p3: "vec_x pos3 = vec_x pos2" "vec_z pos3 = z" "vec_y pos3 = newY"
    by (simp_all add: pos3_def p2)
  have "vec_y pos3 - h \<le> 1" using newY_le ip(7) by (simp add: p3)
  then have gs: "groundSearch32 pos3 r h vy [centerCube] = (found, GROUND_LEVEL)"
    by (simp add: groundSearch32_centerCube found_def p3)
  have c01: "vy \<le> float32 0.01"
  proof -
    have "0 \<le> float32 0.01" by (intro float32_nonneg) simp
    with vy show ?thesis by linarith
  qed
  have candz: "float32 (z + float32 (0 * dt)) = z" using z by simp
  have e1: "cand = (position q)
          \<lparr>vec_x := float32 (vec_x (position q) + float32 (vec_x (velocity q) * frameTime (snd frame))),
           vec_z := float32 (vec_z (position q) + float32 (vec_z (velocity q) * frameTime (snd frame)))\<rparr>"
    using candz by (simp add: cand_def qf qx qz ip(3) w_def x_def dt_def)
  have e2: "pos2 = horizontalCollisions32 cand (radius q) (height q) [centerCube]"
    by (simp only: pos2_def qf)
  have e3: "pos3 = pos2\<lparr>vec_y := float32 (vec_y pos2 + float32 (vec_y (velocity q) * frameTime (snd frame)))\<rparr>"
    by (simp only: pos3_def newY_def p2 vy_def dt_def)
  have e4: "groundSearch32 pos3 (radius q) (height q) (vec_y (velocity q)) [centerCube]
      = (found, GROUND_LEVEL)"
    using gs by (simp only: qf vy_def)
  have res: "UpdateWalkingMode32 p ms s [centerCube] frame
      = (if found
         then q\<lparr>velocity := (velocity q)\<lparr>vec_y := 0\<rparr>, isGrounded := True,
                position := pos3\<lparr>vec_y := float32 (GROUND_LEVEL + h)\<rparr>\<rparr>
         else q\<lparr>isGrounded := False, position := pos3\<rparr>)"
    using UpdateWalkingMode32_eq [OF q_def e1 e2 e3 e4] c01
    by (simp only: vy_def [symmetric] qf simp_thms if_True if_False)
  show ?thesis
  proof (cases found)
    case True
    then show ?thesis
      unfolding res using p2(1) h by (simp add: approachInv32_def qf p3 GROUND_LEVEL_def)
  next
    case False
    then have "0 < float32 (newY - h)"
      using float32_nonneg [of "GROUND_LEVEL + float32 0.05"] float32_nonneg [of "0.05"]
      by (simp add: found_def GROUND_LEVEL_def)
    then have "0 < newY - h" by (rule float32_pos_arg)
    then have n0: "0 \<le> newY" using h(1) by linarith
    then have "float32 newY = newY"
      unfolding newY_def by (rule float32_idem_nonneg)
    then show ?thesis
      unfolding res using False p2(1) n0 newY_le ip(7) vy
      by (simp add: approachInv32_def qf p3 vy_def)
  qed
qed

lemma approach32_run:
  assumes "approachInv32 r h z p"
    and "0 < r" "r \<le> 4" and "0 \<le> h" "float32 h = h" and "float32 z = z"
    and "0 \<le> ms"
    and "\<forall>frame \<in> set frames. approachFrame32 ms r z frame"
  shows "approachInv32 r h z (walkRun32 p ms s [centerCube] frames)"
  using assms(1,8)
proof (induction frames arbitrary: p)
  case Nil
  then show ?case by simp
next
  case (Cons frame frames)
  have "approachInv32 r h z (UpdateWalkingMode32 p ms s [centerCube] frame)"
    using Cons.prems(1) assms(2-7) by (rule approach32_step) (use Cons.prems(2) in simp)
  then show ?case using Cons.IH Cons.prems(2) by simp
qed

subsection \<open>Runs of the binary32 update on the example players\<close>

text \<open>
  The example runs are evaluated frame by frame. The first lemma lists the roundings
  that occur in them; each frame is then traced through the stages of the update: the
  velocity, the candidate position, the collision loop, the vertical move and the ground
  search.
\<close>

lemma float32_range_hi:
  assumes "16 \<le> \<bar>x\<bar>" and "\<bar>x\<bar> < 32"
  shows "float32 x = roundAt 4 x"
  using assms float32_binade [of 4 x] by simp

lemma float32_values:
  "float32 (- 24) = (- 24)"
  "float32 (- 8) = (- 8)"
  "float32 (- 7) = (- 7)"
  "float32 (- 3) = (- 3)"
  "float32 (- 2) = (- 2)"
  "float32 (- (3 / 2)) = (- (3 / 2))"
  "float32 (- 1) = (- 1)"
  "float32 (- (7 / 8)) = (- (7 / 8))"
  "float32 (- (3355443 / 4194304)) = (- (3355443 / 4194304))"
  "float32 (- (1 / 2)) = (- (1 / 2))"
  "float32 (- (5033165 / 16777216)) = (- (5033165 / 16777216))"
  "float32 (1 / 100) = (5368709 / 536870912)"
  "float32 (1 / 20) = (13421773 / 268435456)"
  "float32 (13421773 / 268435456) = (13421773 / 268435456)"
  "float32 (1 / 10) = (13421773 / 134217728)"
  "float32 (2097151 / 16777216) = (2097151 / 16777216)"
  "float32 (1 / 4) = (1 / 4)"
  "float32 (3 / 10) = (5033165 / 16777216)"
  "float32 (5033165 / 16777216) = (5033165 / 16777216)"
  "float32 (5452595 / 16777216) = (5452595 / 16777216)"
  "float32 (1782579 / 4194304) = (1782579 / 4194304)"
  "float32 (1 / 2) = (1 / 2)"
  "float32 (5 / 8) = (5 / 8)"
  "float32 (11324621 / 16777216) = (11324621 / 16777216)"
  "float32 (12163481 / 16777216) = (12163481 / 16777216)"
  "float32 (3 / 4) = (3 / 4)"
  "float32 (14680065 / 16777216) = (14680065 / 16777216)"
  "float32 (15518925 / 16777216) = (15518925 / 16777216)"
  "float32 (16777215 / 16777216) = (16777215 / 16777216)"
  "float32 1 = 1"
  "float32 (20132659 / 16777216) = (5033165 / 4194304)"
  "float32 (5 / 4) = (5 / 4)"
  "float32 (21810381 / 16777216) = (5452595 / 4194304)"
  "float32 (3 / 2) = (3 / 2)"
  "float32 (26843545 / 16777216) = (3355443 / 2097152)"
  "float32 (28940697 / 16777216) = (3617587 / 2097152)"
  "float32 (7 / 4) = (7 / 4)"
  "float32 (7549747 / 4194304) = (7549747 / 4194304)"
  "float32 (9 / 5) = (7549747 / 4194304)"
  "float32 (30198989 / 16777216) = (7549747 / 4194304)"
  "float32 (255013683 / 134217728) = (15938355 / 8388608)"
  "float32 (32296141 / 16777216) = (8074035 / 4194304)"
  "float32 2 = 2"
  "float32 (550292685 / 268435456) = (8598323 / 4194304)"
  "float32 (34812723 / 16777216) = (8703181 / 4194304)"
  "float32 (19 / 8) = (19 / 8)"
  "float32 (5 / 2) = (5 / 2)"
  "float32 (44879053 / 16777216) = (11219763 / 4194304)"
  "float32 (11 / 4) = (11 / 4)"
  "float32 (49492787 / 16777216) = (12373197 / 4194304)"
  "float32 3 = 3"
  "float32 (13 / 4) = (13 / 4)"
  "float32 (7 / 2) = (7 / 2)"
  "float32 (59559117 / 16777216) = (14889779 / 4194304)"
  "float32 (64172851 / 16777216) = (16043213 / 4194304)"
  "float32 4 = 4"
  "float32 (33 / 8) = (33 / 8)"
  "float32 (74239181 / 16777216) = (4639949 / 1048576)"
  "float32 (9 / 2) = (9 / 2)"
  "float32 24 = 24"
  by (simp_all add: float32_range float32_range_hi roundAt_def roundTiesEven_def)


lemmas frame32_simps =
  mainSizedPlayer_def approachPlayer_def cornerPlayer_def
  backFrame32_def backFrame_def idleFrame_def float32_values vec3_def

lemmas collision32_simps =
  ShouldApplyHorizontalCollision32_def horizontalOverlap32_def ResolveCollision32_def
  GetBoxBounds32_centerCube Let_def

lemma rounding_frame1:
  "UpdateWalkingMode32 mainSizedPlayer 7 0.1 [centerCube] (backFrame32 (1 / 8) False)
     = mainSizedPlayer\<lparr>position := vec3 (33 / 8) (7549747 / 4194304) 0, velocity := vec3 (- 7) 0 0\<rparr>"
proof -
  let ?f = "backFrame32 (1 / 8) False"
  let ?q = "mainSizedPlayer\<lparr>velocity := vec3 (- 7) 0 0\<rparr>"
  let ?cand = "vec3 (33 / 8) 1 0"
  let ?pos2 = "vec3 (33 / 8) 1 0"
  have e0: "?q = walkVelocity32 (UpdateCameraLook32 mainSizedPlayer 0.1 (snd ?f)) (fst ?f) 7 (snd ?f)"
    by (simp add: frame32_simps UpdateCameraLook32_def walkVelocity32_def Let_def)
  have e1: "?cand = (position ?q)
      \<lparr>vec_x := float32 (vec_x (position ?q)
                 + float32 (vec_x (velocity ?q) * frameTime (snd ?f))),
       vec_z := float32 (vec_z (position ?q)
                 + float32 (vec_z (velocity ?q) * frameTime (snd ?f)))\<rparr>"
    by (simp add: frame32_simps)
  have e2: "?pos2 = horizontalCollisions32 ?cand (radius ?q) (height ?q) [centerCube]"
    by (simp add: frame32_simps collision32_simps)
  have e3: "?pos2 = ?pos2
      \<lparr>vec_y := float32 (vec_y ?pos2 + float32 (vec_y (velocity ?q) * frameTime (snd ?f)))\<rparr>"
    by (simp add: frame32_simps)
  have e4: "groundSearch32 ?pos2 (radius ?q) (height ?q) (vec_y (velocity ?q)) [centerCube]
      = (True, 0)"
    by (simp add: frame32_simps collision32_simps groundSearch32_def GROUND_LEVEL_def)
  show ?thesis
    using UpdateWalkingMode32_eq [OF e0 e1 e2 e3 e4] by (simp add: frame32_simps)
qed

lemma rounding_frame2:
  "UpdateWalkingMode32 (mainSizedPlayer\<lparr>position := vec3 (33 / 8) (7549747 / 4194304) 0, velocity := vec3 (- 7) 0 0\<rparr>) 7 0.1 [centerCube] (backFrame32 (1 / 8) False)
     = mainSizedPlayer\<lparr>position := vec3 (13 / 4) (7549747 / 4194304) 0, velocity := vec3 (- 7) 0 0\<rparr>"
proof -
  let ?f = "backFrame32 (1 / 8) False"
  let ?q = "mainSizedPlayer\<lparr>position := vec3 (33 / 8) (7549747 / 4194304) 0, velocity := vec3 (- 7) 0 0\<rparr>\<lparr>velocity := vec3 (- 7) 0 0\<rparr>"
  let ?cand = "vec3 (13 / 4) (7549747 / 4194304) 0"
  let ?pos2 = "vec3 (13 / 4) (7549747 / 4194304) 0"
  have e0: "?q = walkVelocity32 (UpdateCameraLook32 (mainSizedPlayer\<lparr>position := vec3 (33 / 8) (7549747 / 4194304) 0, velocity := vec3 (- 7) 0 0\<rparr>) 0.1 (snd ?f)) (fst ?f) 7 (snd ?f)"
    by (simp add: frame32_simps UpdateCameraLook32_def walkVelocity32_def Let_def)
  have e1: "?cand = (position ?q)
      \<lparr>vec_x := float32 (vec_x (position ?q)
                 + float32 (vec_x (velocity ?q) * frameTime (snd ?f))),
       vec_z := float32 (vec_z (position ?q)
                 + float32 (vec_z (velocity ?q) * frameTime (snd ?f)))\<rparr>"
    by (simp add: frame32_simps)
  have e2: "?pos2 = horizontalCollisions32 ?cand (radius ?q) (height ?q) [centerCube]"
    by (simp add: frame32_simps collision32_simps)
  have e3: "?pos2 = ?pos2
      \<lparr>vec_y := float32 (vec_y ?pos2 + float32 (vec_y (velocity ?q) * frameTime (snd ?f)))\<rparr>"
    by (simp add: frame32_simps)
  have e4: "groundSearch32 ?pos2 (radius ?q) (height ?q) (vec_y (velocity ?q)) [centerCube]
      = (True, 0)"
    by (simp add: frame32_simps collision32_simps groundSearch32_def GROUND_LEVEL_def)
  show ?thesis
    using UpdateWalkingMode32_eq [OF e0 e1 e2 e3 e4] by (simp add: frame32_simps)
qed

lemma rounding_frame3:
  "UpdateWalkingMode32 (mainSizedPlayer\<lparr>position := vec3 (13 / 4) (7549747 / 4194304) 0, velocity := vec3 (- 7) 0 0\<rparr>) 7 0.1 [centerCube] (backFrame32 (1 / 8) False)
     = mainSizedPlayer\<lparr>position := vec3 (19 / 8) (7549747 / 4194304) 0, velocity := vec3 (- 7) 0 0\<rparr>"
proof -
  let ?f = "backFrame32 (1 / 8) False"
  let ?q = "mainSizedPlayer\<lparr>position := vec3 (13 / 4) (7549747 / 4194304) 0, velocity := vec3 (- 7) 0 0\<rparr>\<lparr>velocity := vec3 (- 7) 0 0\<rparr>"
  let ?cand = "vec3 (19 / 8) (7549747 / 4194304) 0"
  let ?pos2 = "vec3 (19 / 8) (7549747 / 4194304) 0"
  have e0: "?q = walkVelocity32 (UpdateCameraLook32 (mainSizedPlayer\<lparr>position := vec3 (13 / 4) (7549747 / 4194304) 0, velocity := vec3 (- 7) 0 0\<rparr>) 0.1 (snd ?f)) (fst ?f) 7 (snd ?f)"
    by (simp add: frame32_simps UpdateCameraLook32_def walkVelocity32_def Let_def)
  have e1: "?cand = (position ?q)
      \<lparr>vec_x := float32 (vec_x (position ?q)
                 + float32 (vec_x (velocity ?q) * frameTime (snd ?f))),
       vec_z := float32 (vec_z (position ?q)
                 + float32 (vec_z (velocity ?q) * frameTime (snd ?f)))\<rparr>"
    by (simp add: frame32_simps)
  have e2: "?pos2 = horizontalCollisions32 ?cand (radius ?q) (height ?q) [centerCube]"
    by (simp add: frame32_simps collision32_simps)
  have e3: "?pos2 = ?pos2
      \<lparr>vec_y := float32 (vec_y ?pos2 + float32 (vec_y (velocity ?q) * frameTime (snd ?f)))\<rparr>"
    by (simp add: frame32_simps)
  have e4: "groundSearch32 ?pos2 (radius ?q) (height ?q) (vec_y (velocity ?q)) [centerCube]
      = (True, 0)"
    by (simp add: frame32_simps collision32_simps groundSearch32_def GROUND_LEVEL_def)
  show ?thesis
    using UpdateWalkingMode32_eq [OF e0 e1 e2 e3 e4] by (simp add: frame32_simps)
qed

lemma rounding_frame4:
  "UpdateWalkingMode32 (mainSizedPlayer\<lparr>position := vec3 (19 / 8) (7549747 / 4194304) 0, velocity := vec3 (- 7) 0 0\<rparr>) 7 0.1 [centerCube] (backFrame32 (1 / 8) False)
     = mainSizedPlayer\<lparr>position := vec3 (3 / 2) (7549747 / 4194304) 0, velocity := vec3 (- 7) 0 0\<rparr>"
proof -
  let ?f = "backFrame32 (1 / 8) False"
  let ?q = "mainSizedPlayer\<lparr>position := vec3 (19 / 8) (7549747 / 4194304) 0, velocity := vec3 (- 7) 0 0\<rparr>\<lparr>velocity := vec3 (- 7) 0 0\<rparr>"
  let ?cand = "vec3 (3 / 2) (7549747 / 4194304) 0"
  let ?pos2 = "vec3 (3 / 2) (7549747 / 4194304) 0"
  have e0: "?q = walkVelocity32 (UpdateCameraLook32 (mainSizedPlayer\<lparr>position := vec3 (19 / 8) (7549747 / 4194304) 0, velocity := vec3 (- 7) 0 0\<rparr>) 0.1 (snd ?f)) (fst ?f) 7 (snd ?f)"
    by (simp add: frame32_simps UpdateCameraLook32_def walkVelocity32_def Let_def)
  have e1: "?cand = (position ?q)
      \<lparr>vec_x := float32 (vec_x (position ?q)
                 + float32 (vec_x (velocity ?q) * frameTime (snd ?f))),
       vec_z := float32 (vec_z (position ?q)
                 + float32 (vec_z (velocity ?q) * frameTime (snd ?f)))\<rparr>"
    by (simp add: frame32_simps)
  have e2: "?pos2 = horizontalCollisions32 ?cand (radius ?q) (height ?q) [centerCube]"
    by (simp add: frame32_simps collision32_simps)
  have e3: "?pos2 = ?pos2
      \<lparr>vec_y := float32 (vec_y ?pos2 + float32 (vec_y (velocity ?q) * frameTime (snd ?f)))\<rparr>"
    by (simp add: frame32_simps)
  have e4: "groundSearch32 ?pos2 (radius ?q) (height ?q) (vec_y (velocity ?q)) [centerCube]
      = (True, 0)"
    by (simp add: frame32_simps collision32_simps groundSearch32_def GROUND_LEVEL_def)
  show ?thesis
    using UpdateWalkingMode32_eq [OF e0 e1 e2 e3 e4] by (simp add: frame32_simps)
qed

lemma rounding_frame5:
  "UpdateWalkingMode32 (mainSizedPlayer\<lparr>position := vec3 (3 / 2) (7549747 / 4194304) 0, velocity := vec3 (- 7) 0 0\<rparr>) 7 0.1 [centerCube] (backFrame32 (1 / 8) False)
     = mainSizedPlayer\<lparr>position := vec3 (5452595 / 4194304) (7549747 / 4194304) 0, velocity := vec3 (- 7) 0 0\<rparr>"
proof -
  let ?f = "backFrame32 (1 / 8) False"
  let ?q = "mainSizedPlayer\<lparr>position := vec3 (3 / 2) (7549747 / 4194304) 0, velocity := vec3 (- 7) 0 0\<rparr>\<lparr>velocity := vec3 (- 7) 0 0\<rparr>"
  let ?cand = "vec3 (5 / 8) (7549747 / 4194304) 0"
  let ?pos2 = "vec3 (5452595 / 4194304) (7549747 / 4194304) 0"
  have e0: "?q = walkVelocity32 (UpdateCameraLook32 (mainSizedPlayer\<lparr>position := vec3 (3 / 2) (7549747 / 4194304) 0, velocity := vec3 (- 7) 0 0\<rparr>) 0.1 (snd ?f)) (fst ?f) 7 (snd ?f)"
    by (simp add: frame32_simps UpdateCameraLook32_def walkVelocity32_def Let_def)
  have e1: "?cand = (position ?q)
      \<lparr>vec_x := float32 (vec_x (position ?q)
                 + float32 (vec_x (velocity ?q) * frameTime (snd ?f))),
       vec_z := float32 (vec_z (position ?q)
                 + float32 (vec_z (velocity ?q) * frameTime (snd ?f)))\<rparr>"
    by (simp add: frame32_simps)
  have e2: "?pos2 = horizontalCollisions32 ?cand (radius ?q) (height ?q) [centerCube]"
    by (simp add: frame32_simps collision32_simps)
  have e3: "?pos2 = ?pos2
      \<lparr>vec_y := float32 (vec_y ?pos2 + float32 (vec_y (velocity ?q) * frameTime (snd ?f)))\<rparr>"
    by (simp add: frame32_simps)
  have e4: "groundSearch32 ?pos2 (radius ?q) (height ?q) (vec_y (velocity ?q)) [centerCube]
      = (True, 0)"
    by (simp add: frame32_simps collision32_simps groundSearch32_def GROUND_LEVEL_def)
  show ?thesis
    using UpdateWalkingMode32_eq [OF e0 e1 e2 e3 e4] by (simp add: frame32_simps)
qed

lemma rounding_frame6:
  "UpdateWalkingMode32 (mainSizedPlayer\<lparr>position := vec3 (5452595 / 4194304) (7549747 / 4194304) 0, velocity := vec3 (- 7) 0 0\<rparr>) 7 0.1 [centerCube] (backFrame32 (1 / 8) False)
     = mainSizedPlayer\<lparr>position := vec3 (5452595 / 4194304) (7549747 / 4194304) 0, velocity := vec3 (- 7) 0 0\<rparr>"
proof -
  let ?f = "backFrame32 (1 / 8) False"
  let ?q = "mainSizedPlayer\<lparr>position := vec3 (5452595 / 4194304) (7549747 / 4194304) 0, velocity := vec3 (- 7) 0 0\<rparr>\<lparr>velocity := vec3 (- 7) 0 0\<rparr>"
  let ?cand = "vec3 (1782579 / 4194304) (7549747 / 4194304) 0"
  let ?pos2 = "vec3 (5452595 / 4194304) (7549747 / 4194304) 0"
  have e0: "?q = walkVelocity32 (UpdateCameraLook32 (mainSizedPlayer\<lparr>position := vec3 (5452595 / 4194304) (7549747 / 4194304) 0, velocity := vec3 (- 7) 0 0\<rparr>) 0.1 (snd ?f)) (fst ?f) 7 (snd ?f)"
    by (simp add: frame32_simps UpdateCameraLook32_def walkVelocity32_def Let_def)
  have e1: "?cand = (position ?q)
      \<lparr>vec_x := float32 (vec_x (position ?q)
                 + float32 (vec_x (velocity ?q) * frameTime (snd ?f))),
       vec_z := float32 (vec_z (position ?q)
                 + float32 (vec_z (velocity ?q) * frameTime (snd ?f)))\<rparr>"
    by (simp add: frame32_simps)
  have e2: "?pos2 = horizontalCollisions32 ?cand (radius ?q) (height ?q) [centerCube]"
    by (simp add: frame32_simps collision32_simps)
  have e3: "?pos2 = ?pos2
      \<lparr>vec_y := float32 (vec_y ?pos2 + float32 (vec_y (velocity ?q) * frameTime (snd ?f)))\<rparr>"
    by (simp add: frame32_simps)
  have e4: "groundSearch32 ?pos2 (radius ?q) (height ?q) (vec_y (velocity ?q)) [centerCube]
      = (True, 0)"
    by (simp add: frame32_simps collision32_simps groundSearch32_def GROUND_LEVEL_def)
  show ?thesis
    using UpdateWalkingMode32_eq [OF e0 e1 e2 e3 e4] by (simp add: frame32_simps)
qed

lemma tunnel_frame1:
  "UpdateWalkingMode32 approachPlayer 12 0.1 [centerCube] (backFrame32 (1 / 8) True)
     = approachPlayer\<lparr>position := vec3 2 1 0, velocity := vec3 (- 24) 0 0\<rparr>"
proof -
  let ?f = "backFrame32 (1 / 8) True"
  let ?q = "approachPlayer\<lparr>velocity := vec3 (- 24) 0 0\<rparr>"
  let ?cand = "vec3 2 1 0"
  let ?pos2 = "vec3 2 1 0"
  have e0: "?q = walkVelocity32 (UpdateCameraLook32 approachPlayer 0.1 (snd ?f)) (fst ?f) 12 (snd ?f)"
    by (simp add: frame32_simps UpdateCameraLook32_def walkVelocity32_def Let_def)
  have e1: "?cand = (position ?q)
      \<lparr>vec_x := float32 (vec_x (position ?q)
                 + float32 (vec_x (velocity ?q) * frameTime (snd ?f))),
       vec_z := float32 (vec_z (position ?q)
                 + float32 (vec_z (velocity ?q) * frameTime (snd ?f)))\<rparr>"
    by (simp add: frame32_simps)
  have e2: "?pos2 = horizontalCollisions32 ?cand (radius ?q) (height ?q) [centerCube]"
    by (simp add: frame32_simps collision32_simps)
  have e3: "?pos2 = ?pos2
      \<lparr>vec_y := float32 (vec_y ?pos2 + float32 (vec_y (velocity ?q) * frameTime (snd ?f)))\<rparr>"
    by (simp add: frame32_simps)
  have e4: "groundSearch32 ?pos2 (radius ?q) (height ?q) (vec_y (velocity ?q)) [centerCube]
      = (True, 0)"
    by (simp add: frame32_simps collision32_simps groundSearch32_def GROUND_LEVEL_def)
  show ?thesis
    using UpdateWalkingMode32_eq [OF e0 e1 e2 e3 e4] by (simp add: frame32_simps)
qed

lemma tunnel_frame2:
  "UpdateWalkingMode32 (approachPlayer\<lparr>position := vec3 2 1 0, velocity := vec3 (- 24) 0 0\<rparr>) 12 0.1 [centerCube] (backFrame32 (1 / 8) True)
     = approachPlayer\<lparr>position := vec3 (- (3 / 2)) 1 0, velocity := vec3 (- 24) 0 0\<rparr>"
proof -
  let ?f = "backFrame32 (1 / 8) True"
  let ?q = "approachPlayer\<lparr>position := vec3 2 1 0, velocity := vec3 (- 24) 0 0\<rparr>\<lparr>velocity := vec3 (- 24) 0 0\<rparr>"
  let ?cand = "vec3 (- 1) 1 0"
  let ?pos2 = "vec3 (- (3 / 2)) 1 0"
  have e0: "?q = walkVelocity32 (UpdateCameraLook32 (approachPlayer\<lparr>position := vec3 2 1 0, velocity := vec3 (- 24) 0 0\<rparr>) 0.1 (snd ?f)) (fst ?f) 12 (snd ?f)"
    by (simp add: frame32_simps UpdateCameraLook32_def walkVelocity32_def Let_def)
  have e1: "?cand = (position ?q)
      \<lparr>vec_x := float32 (vec_x (position ?q)
                 + float32 (vec_x (velocity ?q) * frameTime (snd ?f))),
       vec_z := float32 (vec_z (position ?q)
                 + float32 (vec_z (velocity ?q) * frameTime (snd ?f)))\<rparr>"
    by (simp add: frame32_simps)
  have e2: "?pos2 = horizontalCollisions32 ?cand (radius ?q) (height ?q) [centerCube]"
    by (simp add: frame32_simps collision32_simps)
  have e3: "?pos2 = ?pos2
      \<lparr>vec_y := float32 (vec_y ?pos2 + float32 (vec_y (velocity ?q) * frameTime (snd ?f)))\<rparr>"
    by (simp add: frame32_simps)
  have e4: "groundSearch32 ?pos2 (radius ?q) (height ?q) (vec_y (velocity ?q)) [centerCube]
      = (True, 0)"
    by (simp add: frame32_simps collision32_simps groundSearch32_def GROUND_LEVEL_def)
  show ?thesis
    using UpdateWalkingMode32_eq [OF e0 e1 e2 e3 e4] by (simp add: frame32_simps)
qed

lemma corner_frame1:
  "UpdateWalkingMode32 cornerPlayer 8 0.1 [centerCube] (backFrame32 (1 / 8) False)
     = cornerPlayer\<lparr>position := vec3 4 1 (5 / 4), velocity := vec3 (- 8) 0 0\<rparr>"
proof -
  let ?f = "backFrame32 (1 / 8) False"
  let ?q = "cornerPlayer\<lparr>velocity := vec3 (- 8) 0 0\<rparr>"
  let ?cand = "vec3 4 1 (5 / 4)"
  let ?pos2 = "vec3 4 1 (5 / 4)"
  have e0: "?q = walkVelocity32 (UpdateCameraLook32 cornerPlayer 0.1 (snd ?f)) (fst ?f) 8 (snd ?f)"
    by (simp add: frame32_simps UpdateCameraLook32_def walkVelocity32_def Let_def)
  have e1: "?cand = (position ?q)
      \<lparr>vec_x := float32 (vec_x (position ?q)
                 + float32 (vec_x (velocity ?q) * frameTime (snd ?f))),
       vec_z := float32 (vec_z (position ?q)
                 + float32 (vec_z (velocity ?q) * frameTime (snd ?f)))\<rparr>"
    by (simp add: frame32_simps)
  have e2: "?pos2 = horizontalCollisions32 ?cand (radius ?q) (height ?q) [centerCube]"
    by (simp add: frame32_simps collision32_simps)
  have e3: "?pos2 = ?pos2
      \<lparr>vec_y := float32 (vec_y ?pos2 + float32 (vec_y (velocity ?q) * frameTime (snd ?f)))\<rparr>"
    by (simp add: frame32_simps)
  have e4: "groundSearch32 ?pos2 (radius ?q) (height ?q) (vec_y (velocity ?q)) [centerCube]
      = (True, 0)"
    by (simp add: frame32_simps collision32_simps groundSearch32_def GROUND_LEVEL_def)
  show ?thesis
    using UpdateWalkingMode32_eq [OF e0 e1 e2 e3 e4] by (simp add: frame32_simps)
qed

lemma corner_frame2:
  "UpdateWalkingMode32 (cornerPlayer\<lparr>position := vec3 4 1 (5 / 4), velocity := vec3 (- 8) 0 0\<rparr>) 8 0.1 [centerCube] (backFrame32 (1 / 8) False)
     = cornerPlayer\<lparr>position := vec3 3 1 (5 / 4), velocity := vec3 (- 8) 0 0\<rparr>"
proof -
  let ?f = "backFrame32 (1 / 8) False"
  let ?q = "cornerPlayer\<lparr>position := vec3 4 1 (5 / 4), velocity := vec3 (- 8) 0 0\<rparr>\<lparr>velocity := vec3 (- 8) 0 0\<rparr>"
  let ?cand = "vec3 3 1 (5 / 4)"
  let ?pos2 = "vec3 3 1 (5 / 4)"
  have e0: "?q = walkVelocity32 (UpdateCameraLook32 (cornerPlayer\<lparr>position := vec3 4 1 (5 / 4), velocity := vec3 (- 8) 0 0\<rparr>) 0.1 (snd ?f)) (fst ?f) 8 (snd ?f)"
    by (simp add: frame32_simps UpdateCameraLook32_def walkVelocity32_def Let_def)
  have e1: "?cand = (position ?q)
      \<lparr>vec_x := float32 (vec_x (position ?q)
                 + float32 (vec_x (velocity ?q) * frameTime (snd ?f))),
       vec_z := float32 (vec_z (position ?q)
                 + float32 (vec_z (velocity ?q) * frameTime (snd ?f)))\<rparr>"
    by (simp add: frame32_simps)
  have e2: "?pos2 = horizontalCollisions32 ?cand (radius ?q) (height ?q) [centerCube]"
    by (simp add: frame32_simps collision32_simps)
  have e3: "?pos2 = ?pos2
      \<lparr>vec_y := float32 (vec_y ?pos2 + float32 (vec_y (velocity ?q) * frameTime (snd ?f)))\<rparr>"
    by (simp add: frame32_simps)
  have e4: "groundSearch32 ?pos2 (radius ?q) (height ?q) (vec_y (velocity ?q)) [centerCube]
      = (True, 0)"
    by (simp add: frame32_simps collision32_simps groundSearch32_def GROUND_LEVEL_def)
  show ?thesis
    using UpdateWalkingMode32_eq [OF e0 e1 e2 e3 e4] by (simp add: frame32_simps)
qed

lemma corner_frame3:
  "UpdateWalkingMode32 (cornerPlayer\<lparr>position := vec3 3 1 (5 / 4), velocity := vec3 (- 8) 0 0\<rparr>) 8 0.1 [centerCube] (backFrame32 (1 / 8) False)
     = cornerPlayer\<lparr>position := vec3 2 1 (5 / 4), velocity := vec3 (- 8) 0 0\<rparr>"
proof -
  let ?f = "backFrame32 (1 / 8) False"
  let ?q = "cornerPlayer\<lparr>position := vec3 3 1 (5 / 4), velocity := vec3 (- 8) 0 0\<rparr>\<lparr>velocity := vec3 (- 8) 0 0\<rparr>"
  let ?cand = "vec3 2 1 (5 / 4)"
  let ?pos2 = "vec3 2 1 (5 / 4)"
  have e0: "?q = walkVelocity32 (UpdateCameraLook32 (cornerPlayer\<lparr>position := vec3 3 1 (5 / 4), velocity := vec3 (- 8) 0 0\<rparr>) 0.1 (snd ?f)) (fst ?f) 8 (snd ?f)"
    by (simp add: frame32_simps UpdateCameraLook32_def walkVelocity32_def Let_def)
  have e1: "?cand = (position ?q)
      \<lparr>vec_x := float32 (vec_x (position ?q)
                 + float32 (vec_x (velocity ?q) * frameTime (snd ?f))),
       vec_z := float32 (vec_z (position ?q)
                 + float32 (vec_z (velocity ?q) * frameTime (snd ?f)))\<rparr>"
    by (simp add: frame32_simps)
  have e2: "?pos2 = horizontalCollisions32 ?cand (radius ?q) (height ?q) [centerCube]"
    by (simp add: frame32_simps collision32_simps)
  have e3: "?pos2 = ?pos2
      \<lparr>vec_y := float32 (vec_y ?pos2 + float32 (vec_y (velocity ?q) * frameTime (snd ?f)))\<rparr>"
    by (simp add: frame32_simps)
  have e4: "groundSearch32 ?pos2 (radius ?q) (height ?q) (vec_y (velocity ?q)) [centerCube]
      = (True, 0)"
    by (simp add: frame32_simps collision32_simps groundSearch32_def GROUND_LEVEL_def)
  show ?thesis
    using UpdateWalkingMode32_eq [OF e0 e1 e2 e3 e4] by (simp add: frame32_simps)
qed

lemma corner_frame4:
  "UpdateWalkingMode32 (cornerPlayer\<lparr>position := vec3 2 1 (5 / 4), velocity := vec3 (- 8) 0 0\<rparr>) 8 0.1 [centerCube] (backFrame32 (1 / 8) False)
     = cornerPlayer\<lparr>position := vec3 1 1 (3 / 2), velocity := vec3 (- 8) 0 0\<rparr>"
proof -
  let ?f = "backFrame32 (1 / 8) False"
  let ?q = "cornerPlayer\<lparr>position := vec3 2 1 (5 / 4), velocity := vec3 (- 8) 0 0\<rparr>\<lparr>velocity := vec3 (- 8) 0 0\<rparr>"
  let ?cand = "vec3 1 1 (5 / 4)"
  let ?pos2 = "vec3 1 1 (3 / 2)"
  have e0: "?q = walkVelocity32 (UpdateCameraLook32 (cornerPlayer\<lparr>position := vec3 2 1 (5 / 4), velocity := vec3 (- 8) 0 0\<rparr>) 0.1 (snd ?f)) (fst ?f) 8 (snd ?f)"
    by (simp add: frame32_simps UpdateCameraLook32_def walkVelocity32_def Let_def)
  have e1: "?cand = (position ?q)
      \<lparr>vec_x := float32 (vec_x (position ?q)
                 + float32 (vec_x (velocity ?q) * frameTime (snd ?f))),
       vec_z := float32 (vec_z (position ?q)
                 + float32 (vec_z (velocity ?q) * frameTime (snd ?f)))\<rparr>"
    by (simp add: frame32_simps)
  have e2: "?pos2 = horizontalCollisions32 ?cand (radius ?q) (height ?q) [centerCube]"
    by (simp add: frame32_simps collision32_simps)
  have e3: "?pos2 = ?pos2
      \<lparr>vec_y := float32 (vec_y ?pos2 + float32 (vec_y (velocity ?q) * frameTime (snd ?f)))\<rparr>"
    by (simp add: frame32_simps)
  have e4: "groundSearch32 ?pos2 (radius ?q) (height ?q) (vec_y (velocity ?q)) [centerCube]
      = (True, 0)"
    by (simp add: frame32_simps collision32_simps groundSearch32_def GROUND_LEVEL_def)
  show ?thesis
    using UpdateWalkingMode32_eq [OF e0 e1 e2 e3 e4] by (simp add: frame32_simps)
qed

section \<open>Noclip mode\<close>

text \<open>
  C5. After every noclip update, whatever the player state and the frame inputs were, the
  velocity is the zero vector and the grounded flag is false.
\<close>

theorem noclip_velocity_zero_not_grounded:
  "velocity (UpdateNoclipMode player moveSpeed mouseSensitivity inp) = vec3 0 0 0
   \<and> vec_x (velocity (UpdateNoclipMode player moveSpeed mouseSensitivity inp)) = 0
   \<and> vec_y (velocity (UpdateNoclipMode player moveSpeed mouseSensitivity inp)) = 0
   \<and> vec_z (velocity (UpdateNoclipMode player moveSpeed mouseSensitivity inp)) = 0
   \<and> isGrounded (UpdateNoclipMode player moveSpeed mouseSensitivity inp) = False"
  by (simp add: UpdateNoclipMode_def Let_def vec3_def)

section \<open>Look update\<close>

text \<open>
  C4. The look update adds the pointer delta times the sensitivity to the yaw, subtracts
  it from the pitch and clamps the pitch; for every pointer delta, sensitivity and prior
  pitch the resulting pitch lies between -89 and 89, and this holds after the walking
  update and after the noclip update, which both start with the look update.
\<close>

theorem pitch_clamped:
  "yaw (UpdateCameraLook player s inp) = yaw player + mouseDelta_x inp * s
   \<and> pitch (UpdateCameraLook player s inp)
       = max (- 89) (min 89 (pitch player - mouseDelta_y inp * s))
   \<and> - 89 \<le> pitch (UpdateCameraLook player s inp)
   \<and> pitch (UpdateCameraLook player s inp) \<le> 89
   \<and> - 89 \<le> pitch (UpdateWalkingMode player ms s colliders inp)
   \<and> pitch (UpdateWalkingMode player ms s colliders inp) \<le> 89
   \<and> - 89 \<le> pitch (UpdateNoclipMode player ms s inp)
   \<and> pitch (UpdateNoclipMode player ms s inp) \<le> 89"
  by (simp add: UpdateWalkingMode_look UpdateNoclipMode_look UpdateCameraLook_pitch)

section \<open>Jump\<close>

text \<open>
  C3. In walking mode, when the player is grounded and the jump key is pressed in a
  frame, then at the end of that frame's update the vertical velocity is exactly 8 and
  the player is not grounded; this holds for every player state, collider list, frame
  time and other input.
\<close>

theorem jump_sets_velocity:
  assumes "isGrounded player" and "pressedSpace inp"
  shows "vec_y (velocity (UpdateWalkingMode player ms s colliders inp)) = 8
    \<and> \<not> isGrounded (UpdateWalkingMode player ms s colliders inp)"
proof -
  let ?q = "walkVelocity (UpdateCameraLook player s inp) ms inp"
  have v: "vec_y (velocity ?q) = 8"
    using assms walkVelocity_jump(1) [of "UpdateCameraLook player s inp" inp ms]
    by (simp add: JUMP_FORCE_def)
  then have n: "\<not> vec_y (velocity ?q) \<le> 0.01" by simp
  show ?thesis
    using v n by (simp add: UpdateWalkingMode_def Let_def split: prod.split)
qed

theorem jump_sets_velocity_witness:
  "isGrounded (initialPlayer\<lparr>isGrounded := True\<rparr>)
   \<and> pressedSpace ((idleFrame (1 / 64))\<lparr>pressedSpace := True\<rparr>)
   \<and> vec_y (velocity (UpdateWalkingMode (initialPlayer\<lparr>isGrounded := True\<rparr>) 7 0.1
        [centerCube] ((idleFrame (1 / 64))\<lparr>pressedSpace := True\<rparr>))) = 8
   \<and> \<not> isGrounded (UpdateWalkingMode (initialPlayer\<lparr>isGrounded := True\<rparr>) 7 0.1
        [centerCube] ((idleFrame (1 / 64))\<lparr>pressedSpace := True\<rparr>))"
  using jump_sets_velocity [of "initialPlayer\<lparr>isGrounded := True\<rparr>"
      "(idleFrame (1 / 64))\<lparr>pressedSpace := True\<rparr>" 7 "0.1" "[centerCube]"]
  by (simp add: initialPlayer_def idleFrame_def)

section \<open>Horizontal collision test\<close>

text \<open>
  C6. For every candidate position and every box, the test reports a horizontal
  collision exactly when the player's footprint overlaps the box's footprint, the feet
  (position.y - height) are below the box top minus 0.1, and the head (position.y) is not
  below the box bottom. For a positive radius and a box of positive width and depth the
  overlap of the footprints is the intersection of the open squares. When the feet are
  at or above the top minus 0.1 the collision loop applies no push-out for that box.
\<close>

theorem horizontal_collision_test:
  "(ShouldApplyHorizontalCollision pos r h box \<longleftrightarrow>
      projectedOverlap pos r box
      \<and> vec_y pos - h < boxTop box - 0.1
      \<and> \<not> vec_y pos < boxBottom box)
   \<and> (0 < r \<and> 0 < vec_x (box_size box) \<and> 0 < vec_z (box_size box) \<longrightarrow>
        (projectedOverlap pos r box \<longleftrightarrow>
           {vec_x pos - r <..< vec_x pos + r} \<inter>
             {vec_x (box_position box) - vec_x (box_size box) / 2 <..<
              vec_x (box_position box) + vec_x (box_size box) / 2} \<noteq> {}
           \<and> {vec_z pos - r <..< vec_z pos + r} \<inter>
             {vec_z (box_position box) - vec_z (box_size box) / 2 <..<
              vec_z (box_position box) + vec_z (box_size box) / 2} \<noteq> {}))
   \<and> (boxTop box - 0.1 \<le> vec_y pos - h \<longrightarrow>
        \<not> ShouldApplyHorizontalCollision pos r h box
        \<and> horizontalCollisions pos r h (box # colliders) = horizontalCollisions pos r h colliders)"
proof -
  have a: "ShouldApplyHorizontalCollision pos r h box \<longleftrightarrow>
      projectedOverlap pos r box
      \<and> vec_y pos - h < boxTop box - 0.1
      \<and> \<not> vec_y pos < boxBottom box"
    by (simp add: ShouldApply_iff horizontalOverlap_projected boxTop_def boxBottom_def)
  have b: "\<not> ShouldApplyHorizontalCollision pos r h box
      \<and> horizontalCollisions pos r h (box # colliders) = horizontalCollisions pos r h colliders"
    if "boxTop box - 0.1 \<le> vec_y pos - h"
    using that a by simp
  show ?thesis
    using a b projectedOverlap_intervals [of r box pos] by blast
qed

theorem horizontal_collision_test_witness:
  "ShouldApplyHorizontalCollision (vec3 1 1 0) 0.5 1 centerCube
   \<and> (0::real) < 0.5 \<and> 0 < vec_x (box_size centerCube) \<and> 0 < vec_z (box_size centerCube)
   \<and> projectedOverlap (vec3 1 1 0) 0.5 centerCube
   \<and> boxTop centerCube - 0.1 \<le> vec_y (vec3 0 4 0) - 2
   \<and> projectedOverlap (vec3 0 4 0) 0.5 centerCube
   \<and> \<not> ShouldApplyHorizontalCollision (vec3 0 4 0) 0.5 2 centerCube
   \<and> horizontalCollisions (vec3 0 4 0) 0.5 2 [centerCube] = vec3 0 4 0"
  using horizontal_collision_test [of "vec3 1 1 0" "0.5" 1 centerCube "[]"]
    horizontal_collision_test [of "vec3 0 4 0" "0.5" 2 centerCube "[]"]
  by (simp add: centerCube_def boxTop_def boxBottom_def projectedOverlap_def)

text \<open>
  C10. Every bound of the overlap test is strict: a player whose footprint exactly
  touches a face of the box (the distance to the face equals the radius) does not overlap
  it, the test reports no collision, and the collision loop applies no push-out for that
  box.
\<close>

theorem touching_is_no_collision:
  assumes "vec_x pos - r = vec_x (box_position box) + vec_x (box_size box) / 2
         \<or> vec_x pos + r = vec_x (box_position box) - vec_x (box_size box) / 2
         \<or> vec_z pos - r = vec_z (box_position box) + vec_z (box_size box) / 2
         \<or> vec_z pos + r = vec_z (box_position box) - vec_z (box_size box) / 2"
  shows "\<not> projectedOverlap pos r box
     \<and> \<not> ShouldApplyHorizontalCollision pos r h box
     \<and> horizontalCollisions pos r h (box # colliders) = horizontalCollisions pos r h colliders"
proof -
  have "\<not> projectedOverlap pos r box"
    using assms by (auto simp: projectedOverlap_def)
  then show ?thesis
    by (simp add: ShouldApply_iff horizontalOverlap_projected)
qed

theorem touching_is_no_collision_witness:
  "vec_x (vec3 1.5 1 0) - 0.5 = vec_x (box_position centerCube) + vec_x (box_size centerCube) / 2
   \<and> \<not> projectedOverlap (vec3 1.5 1 0) 0.5 centerCube
   \<and> \<not> ShouldApplyHorizontalCollision (vec3 1.5 1 0) 0.5 1 centerCube
   \<and> horizontalCollisions (vec3 1.5 1 0) 0.5 1 [centerCube] = vec3 1.5 1 0"
  using touching_is_no_collision [of "vec3 1.5 1 0" "0.5" centerCube 1 "[]"]
  by (simp add: centerCube_def)

section \<open>Push-out\<close>

text \<open>
  C8. The push-out computes the signed push on X and on Z independently (low face against
  high face) and shifts the position along one axis only: along X when the X push is
  strictly smaller in absolute value, along Z when the Z push is strictly smaller, and
  along Z when the two absolute values are equal. The other horizontal coordinate and
  the y coordinate are unchanged. For a colliding pair the absolute value of each push
  is the smaller of the two overlaps on that axis.
\<close>

theorem resolve_collision_axis:
  "vec_y (ResolveCollision pos r h box) = vec_y pos
   \<and> (\<bar>pushX pos r box\<bar> < \<bar>pushZ pos r box\<bar> \<longrightarrow>
        vec_x (ResolveCollision pos r h box) = vec_x pos + pushX pos r box
        \<and> vec_z (ResolveCollision pos r h box) = vec_z pos)
   \<and> (\<bar>pushZ pos r box\<bar> < \<bar>pushX pos r box\<bar> \<longrightarrow>
        vec_z (ResolveCollision pos r h box) = vec_z pos + pushZ pos r box
        \<and> vec_x (ResolveCollision pos r h box) = vec_x pos)
   \<and> (\<bar>pushX pos r box\<bar> = \<bar>pushZ pos r box\<bar> \<longrightarrow>
        vec_z (ResolveCollision pos r h box) = vec_z pos + pushZ pos r box
        \<and> vec_x (ResolveCollision pos r h box) = vec_x pos)
   \<and> (ShouldApplyHorizontalCollision pos r h box \<longrightarrow>
        \<bar>pushX pos r box\<bar> = min ((vec_x pos + r) - (vec_x (box_position box) - vec_x (box_size box) / 2))
                                  ((vec_x (box_position box) + vec_x (box_size box) / 2) - (vec_x pos - r))
        \<and> \<bar>pushZ pos r box\<bar> = min ((vec_z pos + r) - (vec_z (box_position box) - vec_z (box_size box) / 2))
                                  ((vec_z (box_position box) + vec_z (box_size box) / 2) - (vec_z pos - r)))"
  by (auto simp: ResolveCollision_push ShouldApply_iff horizontalOverlap_def pushX_def pushZ_def Let_def)


theorem resolve_collision_axis_witness:
  "ShouldApplyHorizontalCollision (vec3 0.75 1 0) 0.5 1 centerCube
   \<and> \<bar>pushX (vec3 0.75 1 0) 0.5 centerCube\<bar> < \<bar>pushZ (vec3 0.75 1 0) 0.5 centerCube\<bar>
   \<and> vec_x (ResolveCollision (vec3 0.75 1 0) 0.5 1 centerCube) = 1.5
   \<and> vec_z (ResolveCollision (vec3 0.75 1 0) 0.5 1 centerCube) = 0
   \<and> \<bar>pushZ (vec3 0 1 (- 0.75)) 0.5 centerCube\<bar> < \<bar>pushX (vec3 0 1 (- 0.75)) 0.5 centerCube\<bar>
   \<and> vec_x (ResolveCollision (vec3 0 1 (- 0.75)) 0.5 1 centerCube) = 0
   \<and> vec_z (ResolveCollision (vec3 0 1 (- 0.75)) 0.5 1 centerCube) = - 1.5
   \<and> \<bar>pushX (vec3 0 1 0) 0.5 centerCube\<bar> = \<bar>pushZ (vec3 0 1 0) 0.5 centerCube\<bar>
   \<and> vec_x (ResolveCollision (vec3 0 1 0) 0.5 1 centerCube) = 0
   \<and> vec_z (ResolveCollision (vec3 0 1 0) 0.5 1 centerCube) = 1.5"
  using resolve_collision_axis [of "vec3 0.75 1 0" "0.5" 1 centerCube]
    resolve_collision_axis [of "vec3 0 1 (- 0.75)" "0.5" 1 centerCube]
    resolve_collision_axis [of "vec3 0 1 0" "0.5" 1 centerCube]
  by (simp add: pushX_def pushZ_def centerCube_def ShouldApply_iff horizontalOverlap_def)

section \<open>Standing exception for the centre cube\<close>

text \<open>
  C7. The centre cube, centre (0,1,0) and size (2,2,2), has its top at y = 2. Every
  player whose feet are at or above 2 - 0.1 = 1.9 gets no horizontal push-out from it,
  whatever the horizontal position and the radius: the collision loop leaves the
  candidate position to the remaining boxes as it is.
\<close>

theorem standing_exception_threshold:
  assumes "2 - 0.1 \<le> vec_y pos - h"
  shows "boxTop centerCube = 2 \<and> \<not> ShouldApplyHorizontalCollision pos r h centerCube
     \<and> horizontalCollisions pos r h (centerCube # colliders) = horizontalCollisions pos r h colliders"
  using assms by (simp add: ShouldApply_iff centerCube_def boxTop_def)


theorem standing_exception_threshold_witness:
  "2 - 0.1 \<le> vec_y (vec3 0.5 4 0) - (2::real)
   \<and> \<not> ShouldApplyHorizontalCollision (vec3 0.5 4 0) 0.5 2 centerCube
   \<and> horizontalCollisions (vec3 0.5 4 0) 0.5 2 [centerCube] = vec3 0.5 4 0"
  using standing_exception_threshold [of "vec3 0.5 4 0" 2 "0.5" "[]"]
  by simp

text \<open>
  The threshold is not 1 - 0.1 = 0.9: a player with feet at y = 1, of radius 0.5 and
  height 1 at (1.25, 2, 0), overlaps the cube's footprint and is pushed out to x = 1.5.
\<close>

theorem standing_exception_threshold_counterexample:
  "1 - 0.1 \<le> vec_y (vec3 1.25 2 0) - 1
   \<and> ShouldApplyHorizontalCollision (vec3 1.25 2 0) 0.5 1 centerCube
   \<and> horizontalCollisions (vec3 1.25 2 0) 0.5 1 [centerCube] = vec3 1.5 2 0"
  by (simp add: ShouldApply_iff horizontalOverlap_def ResolveCollision_push pushX_def pushZ_def centerCube_def vec3_def)

section \<open>Ground detection\<close>

text \<open>
  C9. Ground detection picks the highest qualifying surface. With c the candidate
  position of the frame and S the heights of the qualifying surfaces (the plane at 0 and
  the tops of the qualifying boxes): when S is not empty and the vertical velocity is at
  most 0.01, position.y becomes the largest element of S plus the height, velocity.y
  becomes 0 and the player is grounded; otherwise the player is not grounded and keeps
  the candidate position. Every qualifying box has its top at or below the chosen
  surface. With the plane at 0 and the centre cube's top at 2 under the player, the
  ground height resolves to 2.
\<close>

theorem ground_detection_highest:
  "(let q = walkVelocity (UpdateCameraLook player s inp) ms inp;
        c = walkCandidate player ms s colliders inp;
        S = qualifyingSurfaces c (radius player) (height player) (vec_y (velocity q)) colliders;
        p' = UpdateWalkingMode player ms s colliders inp
    in (S \<noteq> [] \<and> vec_y (velocity q) \<le> 0.01 \<longrightarrow>
          vec_y (position p') = Max (set S) + height player
          \<and> vec_x (position p') = vec_x c \<and> vec_z (position p') = vec_z c
          \<and> vec_y (velocity p') = 0 \<and> isGrounded p')
     \<and> (\<not> (S \<noteq> [] \<and> vec_y (velocity q) \<le> 0.01) \<longrightarrow>
          \<not> isGrounded p' \<and> position p' = c \<and> velocity p' = velocity q)
     \<and> (\<forall>box \<in> set colliders.
          standable c (radius player) (height player) (vec_y (velocity q)) box \<longrightarrow>
          S \<noteq> [] \<and> boxTop box \<le> Max (set S)))"
proof -
  let ?q = "walkVelocity (UpdateCameraLook player s inp) ms inp"
  let ?c = "walkCandidate player ms s colliders inp"
  let ?S = "qualifyingSurfaces ?c (radius player) (height player) (vec_y (velocity ?q)) colliders"
  let ?p = "UpdateWalkingMode player ms s colliders inp"
  have g: "groundSearch ?c (radius player) (height player) (vec_y (velocity ?q)) colliders
      = (?S \<noteq> [], if ?S \<noteq> [] then Max (set ?S) else 0)"
    by (rule groundSearch_qualifying)
  have a: "vec_y (position ?p) = Max (set ?S) + height player
      \<and> vec_x (position ?p) = vec_x ?c \<and> vec_z (position ?p) = vec_z ?c
      \<and> vec_y (velocity ?p) = 0 \<and> isGrounded ?p"
    if "?S \<noteq> []" "vec_y (velocity ?q) \<le> 0.01"
    using that by (simp add: UpdateWalkingMode_candidate g Let_def)
  have b: "\<not> isGrounded ?p \<and> position ?p = ?c \<and> velocity ?p = velocity ?q"
    if "\<not> (?S \<noteq> [] \<and> vec_y (velocity ?q) \<le> 0.01)"
    using that by (auto simp: UpdateWalkingMode_candidate g Let_def)
  have c: "?S \<noteq> [] \<and> boxTop box \<le> Max (set ?S)"
    if "box \<in> set colliders"
      "standable ?c (radius player) (height player) (vec_y (velocity ?q)) box" for box
  proof -
    from that have "boxTop box \<in> set ?S" by (auto simp: qualifyingSurfaces_def)
    then show ?thesis by (auto intro: Max_ge)
  qed
  show ?thesis unfolding Let_def using a b c by blast
qed


lemma aboveCube_frame:
  "walkCandidate aboveCube 7 0.1 [centerCube] (idleFrame (1/64))
     = vec3 0 (3.8125 - 20/64/64) 0"
  "vec_y (velocity (walkVelocity (UpdateCameraLook aboveCube 0.1 (idleFrame (1/64))) 7
     (idleFrame (1/64)))) = - 20/64"
  by (simp_all add: walkCandidate_def walkVelocity_def walkMoveDir_no_keys Let_def
      aboveCube_def initialPlayer_def idleFrame_def ShouldApply_iff horizontalOverlap_def
      centerCube_def GRAVITY_def)

lemma aboveLowBox_frame:
  "walkCandidate aboveLowBox 7 0.1 [lowBox] (idleFrame (1/8)) = vec3 0 (2 - 20/8/8) 0"
  "vec_y (velocity (walkVelocity (UpdateCameraLook aboveLowBox 0.1 (idleFrame (1/8))) 7
     (idleFrame (1/8)))) = - 20/8"
  by (simp_all add: walkCandidate_def walkVelocity_def walkMoveDir_no_keys Let_def
      aboveLowBox_def initialPlayer_def idleFrame_def ShouldApply_iff horizontalOverlap_def
      lowBox_def GRAVITY_def)

lemma highUp_frame:
  "walkCandidate highUp 7 0.1 [centerCube] (idleFrame (1/64)) = vec3 0 (10 - 20/64/64) 0"
  "vec_y (velocity (walkVelocity (UpdateCameraLook highUp 0.1 (idleFrame (1/64))) 7
     (idleFrame (1/64)))) = - 20/64"
  by (simp_all add: walkCandidate_def walkVelocity_def walkMoveDir_no_keys Let_def
      highUp_def initialPlayer_def idleFrame_def ShouldApply_iff horizontalOverlap_def
      centerCube_def GRAVITY_def)

theorem ground_detection_highest_witness:
  "qualifyingSurfaces (walkCandidate aboveCube 7 0.1 [centerCube] (idleFrame (1/64)))
      (radius aboveCube) (height aboveCube) (- 20 / 64) [centerCube] = [2]
   \<and> standable (walkCandidate aboveCube 7 0.1 [centerCube] (idleFrame (1/64)))
      (radius aboveCube) (height aboveCube) (- 20 / 64) centerCube
   \<and> vec_y (position (UpdateWalkingMode aboveCube 7 0.1 [centerCube] (idleFrame (1/64)))) = 2 + 1.8
   \<and> isGrounded (UpdateWalkingMode aboveCube 7 0.1 [centerCube] (idleFrame (1/64)))
   \<and> qualifyingSurfaces (walkCandidate aboveLowBox 7 0.1 [lowBox] (idleFrame (1/8)))
      (radius aboveLowBox) (height aboveLowBox) (- 20 / 8) [lowBox] = [0, 0.25]
   \<and> vec_y (position (UpdateWalkingMode aboveLowBox 7 0.1 [lowBox] (idleFrame (1/8)))) = 0.25 + 1.8
   \<and> isGrounded (UpdateWalkingMode aboveLowBox 7 0.1 [lowBox] (idleFrame (1/8)))
   \<and> qualifyingSurfaces (walkCandidate highUp 7 0.1 [centerCube] (idleFrame (1/64)))
      (radius highUp) (height highUp) (- 20 / 64) [centerCube] = []
   \<and> \<not> isGrounded (UpdateWalkingMode highUp 7 0.1 [centerCube] (idleFrame (1/64)))"
  using ground_detection_highest [of aboveCube "0.1" "idleFrame (1/64)" 7 "[centerCube]"]
    ground_detection_highest [of aboveLowBox "0.1" "idleFrame (1/8)" 7 "[lowBox]"]
    ground_detection_highest [of highUp "0.1" "idleFrame (1/64)" 7 "[centerCube]"]
  unfolding Let_def aboveCube_frame aboveLowBox_frame highUp_frame
  by (simp add: qualifyingSurfaces_def standable_def planeQualifies_def projectedOverlap_def
      boxTop_def centerCube_def lowBox_def aboveCube_def aboveLowBox_def highUp_def
      initialPlayer_def)

section \<open>Free fall\<close>

text \<open>
  The run of a player that is not grounded, with no obstacles: it stays airborne for some
  frames, each of which lowers velocity.y by 20 times the frame time, and then lands.
\<close>

lemma free_fall_run:
  assumes "\<not> isGrounded player" and "0 < d" and "\<forall>k. d \<le> frameTime (inps k)"
  shows "\<exists>n > 0.
      (\<forall>k < n. \<not> isGrounded (walkRun player ms s [] (map inps [0..<k])))
    \<and> (\<forall>k. Suc k < n \<longrightarrow>
          vec_y (velocity (walkRun player ms s [] (map inps [0..<Suc k])))
            = vec_y (velocity (walkRun player ms s [] (map inps [0..<k]))) - 20 * frameTime (inps k)
        \<and> vec_y (position (walkRun player ms s [] (map inps [0..<Suc k])))
            = vec_y (position (walkRun player ms s [] (map inps [0..<k])))
              + vec_y (velocity (walkRun player ms s [] (map inps [0..<Suc k]))) * frameTime (inps k))
    \<and> isGrounded (walkRun player ms s [] (map inps [0..<n]))
    \<and> vec_y (velocity (walkRun player ms s [] (map inps [0..<n]))) = 0
    \<and> vec_y (position (walkRun player ms s [] (map inps [0..<n]))) = height player"
proof -
  define R where "R k = walkRun player ms s [] (map inps [0..<k])" for k
  have R0: "R 0 = player" by (simp add: R_def)
  have RS: "R (Suc m) = UpdateWalkingMode (R m) ms s [] (inps m)" for m
    unfolding R_def by (rule walkRun_Suc)
  have Rh: "height (R m) = height player" for m by (simp add: R_def)
  obtain m0 where m0: "isGrounded (R (Suc m0))"
    using airborne_player_lands [OF assms(1,2), of inps ms s] assms(3) unfolding R_def by blast
  define n where "n = (LEAST n. isGrounded (R n))"
  have gn: "isGrounded (R n)"
    unfolding n_def using m0 by (rule LeastI)
  have air: "\<not> isGrounded (R k)" if "k < n" for k
    using that unfolding n_def by (rule not_less_Least)
  have n0: "0 < n"
    using gn assms(1) R0 by (cases n) simp_all
  then obtain n' where n': "n = Suc n'" by (cases n) simp_all
  have an': "\<not> isGrounded (R n')" using air [of n'] n' by simp
  have gl: "isGrounded (UpdateWalkingMode (R n') ms s [] (inps n'))"
    using gn unfolding n' RS .
  have land: "vec_y (velocity (R n)) = 0 \<and> vec_y (position (R n)) = height player"
    unfolding n' RS using fall_step_landing [OF an' gl] Rh [of n'] by simp
  have fall: "vec_y (velocity (R (Suc k))) = vec_y (velocity (R k)) - 20 * frameTime (inps k)
      \<and> vec_y (position (R (Suc k)))
          = vec_y (position (R k)) + vec_y (velocity (R (Suc k))) * frameTime (inps k)"
    if "Suc k < n" for k
  proof -
    have a: "\<not> isGrounded (R k)" using air [of k] that by simp
    have b: "\<not> isGrounded (UpdateWalkingMode (R k) ms s [] (inps k))"
      using air [OF that] unfolding RS .
    show ?thesis
      unfolding RS using fall_step_airborne [OF a b] by simp
  qed
  have "0 < n \<and> (\<forall>k < n. \<not> isGrounded (R k))
      \<and> (\<forall>k. Suc k < n \<longrightarrow>
          vec_y (velocity (R (Suc k))) = vec_y (velocity (R k)) - 20 * frameTime (inps k)
          \<and> vec_y (position (R (Suc k)))
              = vec_y (position (R k)) + vec_y (velocity (R (Suc k))) * frameTime (inps k))
      \<and> isGrounded (R n) \<and> vec_y (velocity (R n)) = 0 \<and> vec_y (position (R n)) = height player"
    using n0 air fall gn land by blast
  then show ?thesis unfolding R_def by blast
qed

text \<open>
  C2. In walking mode with no obstacles, a player that is not grounded free-falls. A
  frame that leaves it airborne lowers velocity.y by exactly 20 times the frame time and
  moves position.y by the new velocity times the frame time. A frame that lands it sets
  grounded to true, velocity.y to 0 and position.y to the height, so that the feet are
  on the plane at 0; the landing frame is the one whose candidate feet are at most 0.05
  above the plane while velocity.y is at most 0.01. With frame times bounded below by a
  positive d the player does land: it is airborne up to some frame n and grounded, at
  rest, with position.y equal to the height, after frame n. This holds from every
  starting height and velocity and whatever keys are held.
\<close>

theorem free_fall_until_landing:
  assumes "\<not> isGrounded player"
  shows "(\<not> isGrounded (UpdateWalkingMode player ms s [] inp) \<longrightarrow>
        vec_y (velocity (UpdateWalkingMode player ms s [] inp))
          = vec_y (velocity player) - 20 * frameTime inp
        \<and> vec_y (position (UpdateWalkingMode player ms s [] inp))
          = vec_y (position player)
            + vec_y (velocity (UpdateWalkingMode player ms s [] inp)) * frameTime inp)
    \<and> (isGrounded (UpdateWalkingMode player ms s [] inp) \<longrightarrow>
        vec_y (velocity (UpdateWalkingMode player ms s [] inp)) = 0
        \<and> vec_y (position (UpdateWalkingMode player ms s [] inp)) = height player)
    \<and> (isGrounded (UpdateWalkingMode player ms s [] inp) \<longleftrightarrow>
        vec_y (position player) + (vec_y (velocity player) - 20 * frameTime inp) * frameTime inp
          - height player \<le> 0.05
        \<and> vec_y (velocity player) - 20 * frameTime inp \<le> 0.01)
    \<and> (0 < d \<and> (\<forall>k. d \<le> frameTime (inps k)) \<longrightarrow>
        (\<exists>n > 0.
          (\<forall>k < n. \<not> isGrounded (walkRun player ms s [] (map inps [0..<k])))
        \<and> (\<forall>k. Suc k < n \<longrightarrow>
              vec_y (velocity (walkRun player ms s [] (map inps [0..<Suc k])))
                = vec_y (velocity (walkRun player ms s [] (map inps [0..<k])))
                  - 20 * frameTime (inps k))
        \<and> isGrounded (walkRun player ms s [] (map inps [0..<n]))
        \<and> vec_y (velocity (walkRun player ms s [] (map inps [0..<n]))) = 0
        \<and> vec_y (position (walkRun player ms s [] (map inps [0..<n]))) = height player))"
proof -
  let ?u = "UpdateWalkingMode player ms s [] inp"
  have a: "vec_y (velocity ?u) = vec_y (velocity player) - 20 * frameTime inp
      \<and> vec_y (position ?u) = vec_y (position player) + vec_y (velocity ?u) * frameTime inp"
    if "\<not> isGrounded ?u"
    using fall_step_airborne [OF assms that] by simp
  have b: "vec_y (velocity ?u) = 0 \<and> vec_y (position ?u) = height player"
    if "isGrounded ?u"
    using fall_step_landing [OF assms that] by simp
  have c: "isGrounded ?u \<longleftrightarrow>
      vec_y (position player) + (vec_y (velocity player) - 20 * frameTime inp) * frameTime inp
          - height player \<le> 0.05
      \<and> vec_y (velocity player) - 20 * frameTime inp \<le> 0.01"
    using fall_step [OF assms, of inp ms s, unfolded if_bool_eq_conj] by blast
  have e: "\<exists>n > 0.
        (\<forall>k < n. \<not> isGrounded (walkRun player ms s [] (map inps [0..<k])))
      \<and> (\<forall>k. Suc k < n \<longrightarrow>
            vec_y (velocity (walkRun player ms s [] (map inps [0..<Suc k])))
              = vec_y (velocity (walkRun player ms s [] (map inps [0..<k])))
                - 20 * frameTime (inps k))
      \<and> isGrounded (walkRun player ms s [] (map inps [0..<n]))
      \<and> vec_y (velocity (walkRun player ms s [] (map inps [0..<n]))) = 0
      \<and> vec_y (position (walkRun player ms s [] (map inps [0..<n]))) = height player"
    if d: "0 < d" and dt: "\<forall>k. d \<le> frameTime (inps k)"
  proof -
    obtain n where n: "0 < n"
        "\<forall>k < n. \<not> isGrounded (walkRun player ms s [] (map inps [0..<k]))"
        "\<forall>k. Suc k < n \<longrightarrow>
            vec_y (velocity (walkRun player ms s [] (map inps [0..<Suc k])))
              = vec_y (velocity (walkRun player ms s [] (map inps [0..<k])))
                - 20 * frameTime (inps k)
          \<and> vec_y (position (walkRun player ms s [] (map inps [0..<Suc k])))
              = vec_y (position (walkRun player ms s [] (map inps [0..<k])))
                + vec_y (velocity (walkRun player ms s [] (map inps [0..<Suc k])))
                  * frameTime (inps k)"
        "isGrounded (walkRun player ms s [] (map inps [0..<n]))"
        "vec_y (velocity (walkRun player ms s [] (map inps [0..<n]))) = 0"
        "vec_y (position (walkRun player ms s [] (map inps [0..<n]))) = height player"
      using free_fall_run [OF assms d dt, of ms s] by blast
    from n(3) have "\<forall>k. Suc k < n \<longrightarrow>
            vec_y (velocity (walkRun player ms s [] (map inps [0..<Suc k])))
              = vec_y (velocity (walkRun player ms s [] (map inps [0..<k])))
                - 20 * frameTime (inps k)"
      by blast
    with n(1,2,4,5,6) show ?thesis by blast
  qed
  show ?thesis using a b c e by blast
qed

text \<open>
  Instances: a player of height 1.8 released at y = 3.8, in frames of 1/4 s, is airborne
  with velocity.y = -5 after the first frame and lands in the second; the player of
  \<^verbatim>\<open>main\<close>, whose feet start on the plane, lands in its first frame.
\<close>

lemma fallingPlayer_frames:
  "UpdateWalkingMode fallingPlayer 7 0.1 [] (idleFrame (1 / 4))
     = fallingPlayer\<lparr>position := vec3 0 (51 / 20) 10, velocity := vec3 0 (- 5) 0\<rparr>"
  "UpdateWalkingMode
      (fallingPlayer\<lparr>position := vec3 0 (51 / 20) 10, velocity := vec3 0 (- 5) 0\<rparr>)
      7 0.1 [] (idleFrame (1 / 4))
     = fallingPlayer\<lparr>position := vec3 0 (9 / 5) 10, velocity := vec3 0 0 0,
         isGrounded := True\<rparr>"
  by (simp_all add: UpdateWalkingMode_candidate UpdateCameraLook_def walkCandidate_def
      walkVelocity_def Let_def walkMoveDir_no_keys fallingPlayer_def initialPlayer_def
      idleFrame_def groundSearch_Nil GRAVITY_def vec3_def)

lemma initialPlayer_frame:
  "UpdateWalkingMode initialPlayer 7 0.1 [] (idleFrame (1 / 4))
     = initialPlayer\<lparr>isGrounded := True\<rparr>"
  by (simp add: UpdateWalkingMode_candidate UpdateCameraLook_def walkCandidate_def
      walkVelocity_def Let_def walkMoveDir_no_keys initialPlayer_def
      idleFrame_def groundSearch_Nil GRAVITY_def vec3_def)

theorem free_fall_until_landing_witness:
  "\<not> isGrounded fallingPlayer
   \<and> \<not> isGrounded (UpdateWalkingMode fallingPlayer 7 0.1 [] (idleFrame (1 / 4)))
   \<and> vec_y (velocity (UpdateWalkingMode fallingPlayer 7 0.1 [] (idleFrame (1 / 4)))) = - 5
   \<and> vec_y (position (UpdateWalkingMode fallingPlayer 7 0.1 [] (idleFrame (1 / 4)))) = 3.8 - 1.25
   \<and> \<not> isGrounded initialPlayer
   \<and> isGrounded (UpdateWalkingMode initialPlayer 7 0.1 [] (idleFrame (1 / 4)))
   \<and> vec_y (velocity (UpdateWalkingMode initialPlayer 7 0.1 [] (idleFrame (1 / 4)))) = 0
   \<and> vec_y (position (UpdateWalkingMode initialPlayer 7 0.1 [] (idleFrame (1 / 4)))) = 1.8
   \<and> (0::real) < 1 / 4 \<and> (\<forall>k. 1 / 4 \<le> frameTime (idleFrame (1 / 4)))
   \<and> (\<exists>n > 0.
      isGrounded (walkRun fallingPlayer 7 0.1 [] (map (\<lambda>k. idleFrame (1 / 4)) [0..<n]))
    \<and> vec_y (velocity (walkRun fallingPlayer 7 0.1 [] (map (\<lambda>k. idleFrame (1 / 4)) [0..<n]))) = 0
    \<and> vec_y (position (walkRun fallingPlayer 7 0.1 [] (map (\<lambda>k. idleFrame (1 / 4)) [0..<n])))
        = height fallingPlayer)
   \<and> \<not> isGrounded (walkRun fallingPlayer 7 0.1 [] (map (\<lambda>k. idleFrame (1 / 4)) [0..<1]))
   \<and> isGrounded (walkRun fallingPlayer 7 0.1 [] (map (\<lambda>k. idleFrame (1 / 4)) [0..<2]))
   \<and> vec_y (velocity (walkRun fallingPlayer 7 0.1 [] (map (\<lambda>k. idleFrame (1 / 4)) [0..<2]))) = 0
   \<and> vec_y (position (walkRun fallingPlayer 7 0.1 [] (map (\<lambda>k. idleFrame (1 / 4)) [0..<2]))) = 1.8"
proof -
  have h1: "\<not> isGrounded fallingPlayer"
    by (simp add: fallingPlayer_def initialPlayer_def)
  have h1': "\<not> isGrounded initialPlayer"
    by (simp add: initialPlayer_def)
  have h2: "(0::real) < 1 / 4" by simp
  have h3: "\<forall>k. 1 / 4 \<le> frameTime (idleFrame (1 / 4))"
    by (simp add: idleFrame_def)
  have a1: "\<not> isGrounded (UpdateWalkingMode fallingPlayer 7 0.1 [] (idleFrame (1 / 4)))"
    by (simp add: fallingPlayer_frames) (simp add: fallingPlayer_def initialPlayer_def)
  have a2: "isGrounded (UpdateWalkingMode initialPlayer 7 0.1 [] (idleFrame (1 / 4)))"
    by (simp add: initialPlayer_frame)
  note t1 = free_fall_until_landing [where player = fallingPlayer and d = "1 / 4"
        and inp = "idleFrame (1 / 4)" and inps = "\<lambda>k. idleFrame (1 / 4)" and ms = 7
        and s = "0.1", OF h1]
  note t2 = free_fall_until_landing [where player = initialPlayer and d = "1 / 4"
        and inp = "idleFrame (1 / 4)" and inps = "\<lambda>k. idleFrame (1 / 4)" and ms = 7
        and s = "0.1", OF h1']
  have f1: "vec_y (velocity (UpdateWalkingMode fallingPlayer 7 0.1 [] (idleFrame (1 / 4)))) = - 5
      \<and> vec_y (position (UpdateWalkingMode fallingPlayer 7 0.1 [] (idleFrame (1 / 4)))) = 3.8 - 1.25"
    using t1 a1 by (simp add: fallingPlayer_def initialPlayer_def idleFrame_def)
  have f2: "vec_y (velocity (UpdateWalkingMode initialPlayer 7 0.1 [] (idleFrame (1 / 4)))) = 0
      \<and> vec_y (position (UpdateWalkingMode initialPlayer 7 0.1 [] (idleFrame (1 / 4)))) = 1.8"
    using t2 a2 by (simp add: initialPlayer_def)
  have ex: "\<exists>n > 0.
      isGrounded (walkRun fallingPlayer 7 0.1 [] (map (\<lambda>k. idleFrame (1 / 4)) [0..<n]))
    \<and> vec_y (velocity (walkRun fallingPlayer 7 0.1 [] (map (\<lambda>k. idleFrame (1 / 4)) [0..<n]))) = 0
    \<and> vec_y (position (walkRun fallingPlayer 7 0.1 [] (map (\<lambda>k. idleFrame (1 / 4)) [0..<n])))
        = height fallingPlayer"
    using t1 h2 h3 by blast
  have ev: "\<not> isGrounded (walkRun fallingPlayer 7 0.1 [] (map (\<lambda>k. idleFrame (1 / 4)) [0..<1]))
   \<and> isGrounded (walkRun fallingPlayer 7 0.1 [] (map (\<lambda>k. idleFrame (1 / 4)) [0..<2]))
   \<and> vec_y (velocity (walkRun fallingPlayer 7 0.1 [] (map (\<lambda>k. idleFrame (1 / 4)) [0..<2]))) = 0
   \<and> vec_y (position (walkRun fallingPlayer 7 0.1 [] (map (\<lambda>k. idleFrame (1 / 4)) [0..<2]))) = 1.8"
    by (simp add: upt_conv_Cons fallingPlayer_frames)
       (simp add: fallingPlayer_def initialPlayer_def)
  show ?thesis using h1 h1' h2 h3 a1 a2 f1 f2 ex ev by blast
qed

section \<open>Approach to the centre cube\<close>

text \<open>
  C1. In walking mode with the centre cube, centre (0,1,0) and size (2,2,2), as the only
  obstacle, a player that starts at x = 5 and y = 1 with any lateral offset z and moves
  along the x axis towards the cube is held at the cube's x face up to a rounding
  tolerance: in binary32 arithmetic, after every frame
  position.x >= boxMaxX + radius - 0.00001. This needs every frame's step (speed times
  frame time) to be at most boxMaxX + radius - |z| - 0.0001; the radius is positive and
  at most 4, the height is not negative, the height and the lateral offset are binary32
  values, the speed is not negative, the jump key is not pressed and the player does
  not start with an upward velocity.
\<close>

theorem approach_clamped_within_tolerance:
  assumes "vec_x (position player) = 5" and "vec_y (position player) = 1"
    and "float32 (vec_z (position player)) = vec_z (position player)"
    and "vec_y (velocity player) \<le> 0"
    and "0 < radius player" and "radius player \<le> 4"
    and "0 \<le> height player" and "float32 (height player) = height player"
    and "0 \<le> ms"
    and "\<forall>frame \<in> set frames.
          approachFrame32 ms (radius player) (vec_z (position player)) frame"
  shows "\<forall>k \<le> length frames.
        vec_x (bb_max (GetBoxBounds32 centerCube)) + radius player - pushTolerance
          \<le> vec_x (position (walkRun32 player ms s [centerCube] (take k frames)))"
proof (intro allI impI)
  fix k
  assume "k \<le> length frames"
  define r where "r = radius player"
  define h where "h = height player"
  define z where "z = vec_z (position player)"
  have "1 + r - pushTolerance \<le> 5"
    using assms(6) by (simp add: r_def pushTolerance_def)
  then have inv0: "approachInv32 r h z player"
    using assms(1-4,7) by (simp add: approachInv32_def r_def h_def z_def)
  have "\<forall>frame \<in> set (take k frames). approachFrame32 ms r z frame"
    using assms(10) by (auto simp: r_def z_def dest: in_set_takeD)
  with inv0 have "approachInv32 r h z (walkRun32 player ms s [centerCube] (take k frames))"
    using assms(3,5-9) by (intro approach32_run) (simp_all add: r_def h_def z_def)
  then show "vec_x (bb_max (GetBoxBounds32 centerCube)) + radius player - pushTolerance
      \<le> vec_x (position (walkRun32 player ms s [centerCube] (take k frames)))"
    by (simp add: approachInv32_def GetBoxBounds32_centerCube r_def)
qed

theorem approach_clamped_within_tolerance_witness:
  "vec_x (position mainSizedPlayer) = 5 \<and> vec_y (position mainSizedPlayer) = 1
   \<and> float32 (vec_z (position mainSizedPlayer)) = vec_z (position mainSizedPlayer)
   \<and> vec_y (velocity mainSizedPlayer) \<le> 0
   \<and> 0 < radius mainSizedPlayer \<and> radius mainSizedPlayer \<le> 4
   \<and> 0 \<le> height mainSizedPlayer \<and> float32 (height mainSizedPlayer) = height mainSizedPlayer
   \<and> approachFrame32 7 (radius mainSizedPlayer) (vec_z (position mainSizedPlayer))
        (backFrame32 (1/8) False)
   \<and> vec_x (bb_max (GetBoxBounds32 centerCube)) + radius mainSizedPlayer - pushTolerance
        \<le> vec_x (position (walkRun32 mainSizedPlayer 7 0.1 [centerCube]
              (replicate 6 (backFrame32 (1/8) False))))"
proof -
  have h: "vec_x (position mainSizedPlayer) = 5" "vec_y (position mainSizedPlayer) = 1"
      "float32 (vec_z (position mainSizedPlayer)) = vec_z (position mainSizedPlayer)"
      "vec_y (velocity mainSizedPlayer) \<le> 0"
      "0 < radius mainSizedPlayer" "radius mainSizedPlayer \<le> 4"
      "0 \<le> height mainSizedPlayer" "float32 (height mainSizedPlayer) = height mainSizedPlayer"
    by (simp_all add: mainSizedPlayer_def approachPlayer_def float32_values)
  have f: "approachFrame32 7 (radius mainSizedPlayer) (vec_z (position mainSizedPlayer))
      (backFrame32 (1/8) False)"
    by (simp add: approachFrame32_def backFrame32_def backFrame_def idleFrame_def
        mainSizedPlayer_def approachPlayer_def float32_values stepMargin_def)
  then have fs: "\<forall>frame \<in> set (replicate 6 (backFrame32 (1/8) False)).
      approachFrame32 7 (radius mainSizedPlayer) (vec_z (position mainSizedPlayer)) frame"
    by simp
  have "vec_x (bb_max (GetBoxBounds32 centerCube)) + radius mainSizedPlayer - pushTolerance
        \<le> vec_x (position (walkRun32 mainSizedPlayer 7 0.1 [centerCube]
              (take 6 (replicate 6 (backFrame32 (1/8) False)))))"
    using approach_clamped_within_tolerance [OF h _ fs, of "0.1"] by simp
  then show ?thesis using h f by simp
qed

text \<open>
  The inequality position.x >= boxMaxX + radius itself fails, in three ways.

  Rounding. With the radius \<^verbatim>\<open>0.3f\<close> of \<^verbatim>\<open>main\<close>, speed 7 and frames of 1/8 s the step
  is 0.875, within the bound. After four frames the player is at x = 1.5; the candidate
  0.625 is in contact and the overlap 1 - (0.625 - 0.3f) = 11324621/16777216 is computed
  without error, but the sum 0.625 + 11324621/16777216 = 21810381/16777216, which is
  boxMaxX + radius, lies half way between two binary32 values and is rounded to the
  even one, 5452595/4194304 = 1.29999995..., below boxMaxX + radius. The player is at
  this x after the fifth frame and after the sixth, and there the overlap test of the
  source holds again: position.x - radius = 16777215/16777216 is less than boxMaxX = 1.

  Tunnelling. Head on (z = 0), with speed 24 and frames of 1/8 s the step is 3: the
  player goes from x = 5 to x = 2, the next candidate x = -1 is in contact with the cube,
  nearer to its low face, and the push-out puts the player at x = -1.5, on the far side.

  Corner. With the lateral offset 5/4, speed 8 and frames of 1/8 s the step is 1: at the
  candidate x = 1 the overlap on Z (0.25) is smaller than the overlap on X (0.5), the
  push-out moves the player along Z and position.x stays at 1, below
  boxMaxX + radius = 1.5.
\<close>

theorem approach_exact_bound_counterexample:
  "walkMoveDir mainSizedPlayer (backFrame (1/8) False) = fst (backFrame32 (1/8) False)
   \<and> radius mainSizedPlayer = float32 0.3
   \<and> position mainSizedPlayer = vec3 5 1 0
   \<and> approachFrame32 7 (radius mainSizedPlayer) (vec_z (position mainSizedPlayer))
        (backFrame32 (1/8) False)
   \<and> position (walkRun32 mainSizedPlayer 7 0.1 [centerCube]
        (replicate 4 (backFrame32 (1/8) False))) = vec3 (3 / 2) (float32 1.8) 0
   \<and> ShouldApplyHorizontalCollision32 (vec3 (3 / 2 - 7 * (1/8)) (float32 1.8) 0)
        (radius mainSizedPlayer) (height mainSizedPlayer) centerCube
   \<and> position (walkRun32 mainSizedPlayer 7 0.1 [centerCube]
        (replicate 5 (backFrame32 (1/8) False))) = vec3 (5452595 / 4194304) (float32 1.8) 0
   \<and> position (walkRun32 mainSizedPlayer 7 0.1 [centerCube]
        (replicate 6 (backFrame32 (1/8) False))) = vec3 (5452595 / 4194304) (float32 1.8) 0
   \<and> \<not> vec_x (bb_max (GetBoxBounds32 centerCube)) + radius mainSizedPlayer
        \<le> vec_x (position (walkRun32 mainSizedPlayer 7 0.1 [centerCube]
              (replicate 5 (backFrame32 (1/8) False))))
   \<and> horizontalOverlap32 (position (walkRun32 mainSizedPlayer 7 0.1 [centerCube]
              (replicate 5 (backFrame32 (1/8) False))))
        (radius mainSizedPlayer) (GetBoxBounds32 centerCube)
   \<and> walkMoveDir approachPlayer (backFrame (1/8) True) = fst (backFrame32 (1/8) True)
   \<and> position approachPlayer = vec3 5 1 0
   \<and> position (walkRun32 approachPlayer 12 0.1 [centerCube] [backFrame32 (1/8) True])
        = vec3 2 1 0
   \<and> ShouldApplyHorizontalCollision32 (vec3 (2 - 24 * (1/8)) 1 0)
        (radius approachPlayer) (height approachPlayer) centerCube
   \<and> position (walkRun32 approachPlayer 12 0.1 [centerCube]
        [backFrame32 (1/8) True, backFrame32 (1/8) True]) = vec3 (- (3 / 2)) 1 0
   \<and> \<not> vec_x (bb_max (GetBoxBounds32 centerCube)) + radius approachPlayer - pushTolerance
        \<le> vec_x (position (walkRun32 approachPlayer 12 0.1 [centerCube]
              [backFrame32 (1/8) True, backFrame32 (1/8) True]))
   \<and> walkMoveDir cornerPlayer (backFrame (1/8) False) = fst (backFrame32 (1/8) False)
   \<and> position cornerPlayer = vec3 5 1 (5 / 4)
   \<and> ShouldApplyHorizontalCollision32 (vec3 (2 - 8 * (1/8)) 1 (5 / 4))
        (radius cornerPlayer) (height cornerPlayer) centerCube
   \<and> position (walkRun32 cornerPlayer 8 0.1 [centerCube]
        (replicate 4 (backFrame32 (1/8) False))) = vec3 1 1 (3 / 2)
   \<and> \<not> vec_x (bb_max (GetBoxBounds32 centerCube)) + radius cornerPlayer - pushTolerance
        \<le> vec_x (position (walkRun32 cornerPlayer 8 0.1 [centerCube]
              (replicate 4 (backFrame32 (1/8) False))))"
proof -
  have d: "walkMoveDir mainSizedPlayer (backFrame (1/8) False) = fst (backFrame32 (1/8) False)"
      "walkMoveDir approachPlayer (backFrame (1/8) True) = fst (backFrame32 (1/8) True)"
      "walkMoveDir cornerPlayer (backFrame (1/8) False) = fst (backFrame32 (1/8) False)"
    by (simp_all add: walkMoveDir_back mainSizedPlayer_def approachPlayer_def cornerPlayer_def
        backFrame32_def backFrame_def idleFrame_def)
  have r4: "walkRun32 mainSizedPlayer 7 0.1 [centerCube] (replicate 4 (backFrame32 (1/8) False))
      = mainSizedPlayer\<lparr>position := vec3 (3 / 2) (7549747 / 4194304) 0, velocity := vec3 (- 7) 0 0\<rparr>"
    by (simp add: numeral_eq_Suc rounding_frame1 rounding_frame2 rounding_frame3 rounding_frame4)
  have r5: "walkRun32 mainSizedPlayer 7 0.1 [centerCube] (replicate 5 (backFrame32 (1/8) False))
      = mainSizedPlayer\<lparr>position := vec3 (5452595 / 4194304) (7549747 / 4194304) 0, velocity := vec3 (- 7) 0 0\<rparr>"
    by (simp add: numeral_eq_Suc rounding_frame1 rounding_frame2 rounding_frame3 rounding_frame4
        rounding_frame5)
  have r6: "walkRun32 mainSizedPlayer 7 0.1 [centerCube] (replicate 6 (backFrame32 (1/8) False))
      = mainSizedPlayer\<lparr>position := vec3 (5452595 / 4194304) (7549747 / 4194304) 0, velocity := vec3 (- 7) 0 0\<rparr>"
    by (simp add: numeral_eq_Suc rounding_frame1 rounding_frame2 rounding_frame3 rounding_frame4
        rounding_frame5 rounding_frame6)
  have t1: "walkRun32 approachPlayer 12 0.1 [centerCube] [backFrame32 (1/8) True]
      = approachPlayer\<lparr>position := vec3 2 1 0, velocity := vec3 (- 24) 0 0\<rparr>"
    by (simp add: tunnel_frame1)
  have t2: "walkRun32 approachPlayer 12 0.1 [centerCube]
        [backFrame32 (1/8) True, backFrame32 (1/8) True]
      = approachPlayer\<lparr>position := vec3 (- (3 / 2)) 1 0, velocity := vec3 (- 24) 0 0\<rparr>"
    by (simp add: tunnel_frame1 tunnel_frame2)
  have c4: "walkRun32 cornerPlayer 8 0.1 [centerCube] (replicate 4 (backFrame32 (1/8) False))
      = cornerPlayer\<lparr>position := vec3 1 1 (3 / 2), velocity := vec3 (- 8) 0 0\<rparr>"
    by (simp add: numeral_eq_Suc corner_frame1 corner_frame2 corner_frame3 corner_frame4)
  have f: "approachFrame32 7 (radius mainSizedPlayer) (vec_z (position mainSizedPlayer))
      (backFrame32 (1/8) False)"
    by (simp add: approachFrame32_def backFrame32_def backFrame_def idleFrame_def
        mainSizedPlayer_def approachPlayer_def float32_values stepMargin_def)
  have s: "ShouldApplyHorizontalCollision32 (vec3 (3 / 2 - 7 * (1/8)) (float32 1.8) 0)
        (radius mainSizedPlayer) (height mainSizedPlayer) centerCube"
      "ShouldApplyHorizontalCollision32 (vec3 (2 - 24 * (1/8)) 1 0)
        (radius approachPlayer) (height approachPlayer) centerCube"
      "ShouldApplyHorizontalCollision32 (vec3 (2 - 8 * (1/8)) 1 (5 / 4))
        (radius cornerPlayer) (height cornerPlayer) centerCube"
    by (simp_all add: mainSizedPlayer_def approachPlayer_def cornerPlayer_def
        ShouldApplyHorizontalCollision32_def horizontalOverlap32_def
        GetBoxBounds32_centerCube Let_def float32_values)
  have o: "horizontalOverlap32 (vec3 (5452595 / 4194304) (7549747 / 4194304) 0)
        (radius mainSizedPlayer) (GetBoxBounds32 centerCube)"
    by (simp add: mainSizedPlayer_def approachPlayer_def horizontalOverlap32_def
        GetBoxBounds32_centerCube float32_values)
  show ?thesis
    unfolding r4 r5 r6 t1 t2 c4
    using d f s o
    by (simp add: mainSizedPlayer_def approachPlayer_def cornerPlayer_def
        GetBoxBounds32_centerCube float32_values pushTolerance_def)
qed

end
